theory Spec2Isabelle
  imports Main "HOL-Library.Product_Lexorder"
begin

section \<open>Data model\<close>

text \<open>
  Object ids are compared through \<open>toString()\<close> in the source, which is equality of ids;
  they are natural numbers here. A \<open>Date\<close> is its number of milliseconds since the epoch
  (what \<open>today - lastActivity\<close> subtracts). The counters are JavaScript numbers holding
  integers; they are unbounded integers here.
\<close>

type_synonym objectId = nat
type_synonym date = int

subsection \<open>User (models/User.js)\<close>

record streakData =
  currentStreak :: int
  longestStreak :: int
  lastActivityDate :: "date option"
  totalActivitiesCompleted :: int

datatype friendStatus = Pending | Accepted | Blocked

record friendEntry =
  friend_userId :: objectId
  friend_status :: friendStatus
  addedAt :: date

datatype groupRole = Admin | Moderator | Member

record userGroupEntry =
  ug_groupId :: objectId
  ug_role :: groupRole
  ug_joinedAt :: date

record user =
  user_id :: objectId
  username :: string
  streak :: streakData
  friends :: "friendEntry list"
  userGroups :: "userGroupEntry list"
  user_isActive :: bool

subsection \<open>Activity (models/Activity.js)\<close>

record like =
  like_userId :: objectId
  likedAt :: date

record comment =
  comment_userId :: objectId
  comment_content :: string
  comment_createdAt :: date

text \<open>A field the schema does not require and gives no default is \<open>None\<close> until it is
  set.\<close>

record completionData =
  isCompleted :: bool
  completedAt :: "date option"
  rating :: "int option"
  feedback :: "string option"
  moodBefore :: "string option"
  moodAfter :: "string option"
  completionNotes :: "string option"

text \<open>The descriptive fields of an activity (type, category, content, description, duration,
  difficulty, tags) are carried along unchanged by every operation below; \<open>title\<close> stands
  for them.\<close>

record activity =
  act_id :: objectId
  act_userId :: objectId
  title :: string
  completion :: completionData
  isShared :: bool
  likes :: "like list"
  comments :: "comment list"
  act_isActive :: bool
  act_createdAt :: date

subsection \<open>Group (models/Group.js)\<close>

datatype privacy = Public | Private | InviteOnly

record memberEntry =
  member_userId :: objectId
  member_role :: groupRole
  member_joinedAt :: date
  member_isActive :: bool

record participant =
  part_userId :: objectId
  progress :: int
  lastUpdate :: date
  part_isCompleted :: bool

text \<open>\<open>goal.target\<close> has no default and is not required: it can be absent (undefined when
  read), a stored null, or a number.\<close>

datatype goalTarget = TargetAbsent | TargetNull | TargetNumber int

record challenge =
  ch_id :: objectId
  ch_title :: string
  goalTarget :: goalTarget
  participants :: "participant list"
  ch_isActive :: bool

record group =
  group_id :: objectId
  group_name :: string
  group_privacy :: privacy
  members :: "memberEntry list"
  challenges :: "challenge list"
  maxMembers :: int
  group_isActive :: bool

subsection \<open>The database, requests and responses\<close>

text \<open>The three collections, each a list of documents. \<open>findOne\<close>/\<open>findById\<close> return the
  first document that matches; \<open>save\<close> writes a loaded document back in place of the stored
  one with its id.\<close>

record db =
  activities :: "activity list"
  users :: "user list"
  groups :: "group list"

datatype payload =
    NoPayload
  | StreakInfo streakData
  | LikeInfo nat bool

record response =
  status :: nat
  message :: string
  payload :: payload

definition reply :: "nat \<Rightarrow> string \<Rightarrow> response" where
  "reply code msg = \<lparr>status = code, message = msg, payload = NoPayload\<rparr>"

text \<open>A value of the JSON request body, as far as \<open>typeof\<close> tells it apart. A number is
  an integer here, as the progress values and targets of the challenges are.\<close>

datatype jsonValue = JNumber int | JString string | JUndefined

record progressEvent =
  ev_groupId :: objectId
  ev_challengeId :: objectId
  ev_userId :: objectId
  ev_progress :: int

text \<open>A reference returned by \<open>Array.prototype.find\<close> is the first matching element;
  assigning to its fields changes that element of the array in place.\<close>

fun updateFirst :: "('a \<Rightarrow> bool) \<Rightarrow> ('a \<Rightarrow> 'a) \<Rightarrow> 'a list \<Rightarrow> 'a list" where
  "updateFirst P f [] = []"
| "updateFirst P f (x # xs) = (if P x then f x # xs else x # updateFirst P f xs)"

definition findUserById :: "objectId \<Rightarrow> db \<Rightarrow> user option" where
  "findUserById i d = find (\<lambda>u. user_id u = i) (users d)"

text \<open>\<open>String.prototype.trim\<close>: white space and line terminators are removed at both ends.
  The code units above 255 are not represented in a \<open>string\<close>; of the others, these are white
  space: tab, line feed, vertical tab, form feed, carriage return, space, no-break space.\<close>

definition isWhiteSpace :: "char \<Rightarrow> bool" where
  "isWhiteSpace c = (of_char c \<in> set [9, 10, 11, 12, 13, 32, 160 :: nat])"

definition trim :: "string \<Rightarrow> string" where
  "trim s = rev (dropWhile isWhiteSpace (rev (dropWhile isWhiteSpace s)))"

text \<open>\<open>User.findOne({ username })\<close>: the filter is cast through the schema, whose \<open>trim\<close>
  setter on \<open>username\<close> trims the name that is looked up.\<close>

definition findUserByName :: "string \<Rightarrow> db \<Rightarrow> user option" where
  "findUserByName n d = find (\<lambda>u. username u = trim n) (users d)"

definition findGroupById :: "objectId \<Rightarrow> db \<Rightarrow> group option" where
  "findGroupById i d = find (\<lambda>g. group_id g = i) (groups d)"

definition saveActivity :: "activity \<Rightarrow> db \<Rightarrow> db" where
  "saveActivity a d =
     d\<lparr>activities := updateFirst (\<lambda>x. act_id x = act_id a) (\<lambda>_. a) (activities d)\<rparr>"

definition saveUser :: "user \<Rightarrow> db \<Rightarrow> db" where
  "saveUser u d = d\<lparr>users := updateFirst (\<lambda>x. user_id x = user_id u) (\<lambda>_. u) (users d)\<rparr>"

definition saveGroup :: "group \<Rightarrow> db \<Rightarrow> db" where
  "saveGroup g d =
     d\<lparr>groups := updateFirst (\<lambda>x. group_id x = group_id g) (\<lambda>_. g) (groups d)\<rparr>"

section \<open>Streak computation (User.updateStreak)\<close>

definition msPerDay :: int where
  "msPerDay = 1000 * 60 * 60 * 24"

text \<open>\<open>Math.floor((today - lastActivity) / (1000 * 60 * 60 * 24))\<close>; \<open>div\<close> on \<open>int\<close> rounds
  towards minus infinity, as \<open>Math.floor\<close> does.\<close>

definition daysDiff :: "date \<Rightarrow> date \<Rightarrow> int" where
  "daysDiff today lastActivity = (today - lastActivity) div msPerDay"

text \<open>The first \<open>if\<close>/\<open>else\<close> of \<open>updateStreak\<close>: the adjustment of \<open>currentStreak\<close> and
  \<open>lastActivityDate\<close>.\<close>

definition adjustStreak :: "date \<Rightarrow> streakData \<Rightarrow> streakData" where
  "adjustStreak today s =
     (case lastActivityDate s of
        None \<Rightarrow> s\<lparr>currentStreak := 1, lastActivityDate := Some today\<rparr>
      | Some lastActivity \<Rightarrow>
          (if daysDiff today lastActivity = 1
           then s\<lparr>currentStreak := currentStreak s + 1, lastActivityDate := Some today\<rparr>
           else if daysDiff today lastActivity > 1
           then s\<lparr>currentStreak := 1, lastActivityDate := Some today\<rparr>
           else s))"

text \<open>The second \<open>if\<close>: \<open>longestStreak\<close> follows \<open>currentStreak\<close> when that is higher.\<close>

definition raiseLongest :: "streakData \<Rightarrow> streakData" where
  "raiseLongest s =
     (if currentStreak s > longestStreak s then s\<lparr>longestStreak := currentStreak s\<rparr> else s)"

definition updateStreakData :: "date \<Rightarrow> streakData \<Rightarrow> streakData" where
  "updateStreakData today s =
     (let s' = raiseLongest (adjustStreak today s)
      in s'\<lparr>totalActivitiesCompleted := totalActivitiesCompleted s' + 1\<rparr>)"

text \<open>\<open>today\<close> is the value of \<open>new Date()\<close> at the call.\<close>

definition updateStreak :: "date \<Rightarrow> user \<Rightarrow> user" where
  "updateStreak today u = u\<lparr>streak := updateStreakData today (streak u)\<rparr>"

text \<open>A sequence of completion events, each at its own time, applied in order.\<close>

fun completions :: "date list \<Rightarrow> user \<Rightarrow> user" where
  "completions [] u = u"
| "completions (t # ts) u = completions ts (updateStreak t u)"

text \<open>The calendar day (UTC, the default of \<open>profile.timezone\<close>) of a date, and the
  calendar-day difference the specification words the rule with. The source does not compute
  these; they are here to compare the rule as specified with \<^const>\<open>daysDiff\<close>.\<close>

definition calendarDay :: "date \<Rightarrow> int" where
  "calendarDay t = t div msPerDay"

definition calendarDayDiff :: "date \<Rightarrow> date \<Rightarrow> int" where
  "calendarDayDiff today lastActivity = calendarDay today - calendarDay lastActivity"

section \<open>Activity methods and routes (models/Activity.js, routes/activities.js)\<close>

definition markCompleted ::
  "date \<Rightarrow> int option \<Rightarrow> string option \<Rightarrow> string option \<Rightarrow> string option \<Rightarrow> string option
     \<Rightarrow> activity \<Rightarrow> activity" where
  "markCompleted now r fb mBefore mAfter ns a =
     a\<lparr>completion := \<lparr>isCompleted = True, completedAt = Some now, rating = r, feedback = fb,
                       moodBefore = mBefore, moodAfter = mAfter, completionNotes = ns\<rparr>\<rparr>"

definition moods :: "string list" where
  "moods = [''stressed'', ''anxious'', ''sad'', ''neutral'', ''happy'', ''excited'', ''calm'',
            ''energetic'']"

text \<open>The schema's validators for \<open>completionData\<close>, run by \<open>save\<close>: rating between 1 and 5,
  feedback of at most 500 characters, moods of the enum, notes of at most 1000 characters.\<close>

definition validCompletion :: "completionData \<Rightarrow> bool" where
  "validCompletion c =
     ((case rating c of None \<Rightarrow> True | Some r \<Rightarrow> 1 \<le> r \<and> r \<le> 5) \<and>
      (case feedback c of None \<Rightarrow> True | Some f \<Rightarrow> length f \<le> 500) \<and>
      (case moodBefore c of None \<Rightarrow> True | Some m \<Rightarrow> m \<in> set moods) \<and>
      (case moodAfter c of None \<Rightarrow> True | Some m \<Rightarrow> m \<in> set moods) \<and>
      (case completionNotes c of None \<Rightarrow> True | Some n \<Rightarrow> length n \<le> 1000))"

record completeBody =
  b_rating :: "int option"
  b_feedback :: "string option"
  b_moodBefore :: "string option"
  b_moodAfter :: "string option"
  b_notes :: "string option"

text \<open>\<open>POST /api/activities/:id/complete\<close>, after the \<open>auth\<close> middleware has set
  \<open>req.user\<close>. An exception (a failed validation in \<open>save\<close>, a method called on \<open>null\<close>)
  reaches the \<open>catch\<close> and gives the 500 response; what was saved before it stays saved.\<close>

definition completeActivity ::
  "date \<Rightarrow> user \<Rightarrow> objectId \<Rightarrow> completeBody \<Rightarrow> db \<Rightarrow> response \<times> db" where
  "completeActivity now reqUser aid body d =
     (case find (\<lambda>a. act_id a = aid \<and> act_userId a = user_id reqUser \<and> act_isActive a)
             (activities d) of
        None \<Rightarrow> (reply 404 ''Activity not found'', d)
      | Some act \<Rightarrow>
          if isCompleted (completion act)
          then (reply 400 ''Activity already completed'', d)
          else
            (let act' = markCompleted now (b_rating body) (b_feedback body)
                          (b_moodBefore body) (b_moodAfter body) (b_notes body) act
             in if \<not> validCompletion (completion act')
                then (reply 500 ''Error completing activity'', d)
                else
                  (let d1 = saveActivity act' d
                   in case findUserById (user_id reqUser) d1 of
                        None \<Rightarrow> (reply 500 ''Error completing activity'', d1)
                      | Some u \<Rightarrow>
                          (let u' = updateStreak now u
                           in (\<lparr>status = 200, message = ''Activity completed successfully'',
                                payload = StreakInfo (streak u')\<rparr>,
                               saveUser u' d1)))))"

definition addLike :: "date \<Rightarrow> objectId \<Rightarrow> activity \<Rightarrow> activity" where
  "addLike now uid a =
     (case find (\<lambda>l. like_userId l = uid) (likes a) of
        None \<Rightarrow> a\<lparr>likes := likes a @ [\<lparr>like_userId = uid, likedAt = now\<rparr>]\<rparr>
      | Some existingLike \<Rightarrow> a)"

definition removeLike :: "objectId \<Rightarrow> activity \<Rightarrow> activity" where
  "removeLike uid a = a\<lparr>likes := filter (\<lambda>l. like_userId l \<noteq> uid) (likes a)\<rparr>"

text \<open>\<open>POST /api/activities/:id/like\<close>: a toggle.\<close>

definition likeActivity :: "date \<Rightarrow> user \<Rightarrow> objectId \<Rightarrow> db \<Rightarrow> response \<times> db" where
  "likeActivity now reqUser aid d =
     (case find (\<lambda>a. act_id a = aid \<and> act_isActive a) (activities d) of
        None \<Rightarrow> (reply 404 ''Activity not found'', d)
      | Some act \<Rightarrow>
          (case find (\<lambda>l. like_userId l = user_id reqUser) (likes act) of
             Some existingLike \<Rightarrow>
               (let act' = removeLike (user_id reqUser) act
                in (\<lparr>status = 200, message = ''Activity unliked'',
                     payload = LikeInfo (length (likes act')) False\<rparr>,
                    saveActivity act' d))
           | None \<Rightarrow>
               (let act' = addLike now (user_id reqUser) act
                in (\<lparr>status = 200, message = ''Activity liked'',
                     payload = LikeInfo (length (likes act')) True\<rparr>,
                    saveActivity act' d))))"

text \<open>A sequence of like requests on one activity, each by some user at some time.\<close>

fun likeRequests :: "(date \<times> user) list \<Rightarrow> objectId \<Rightarrow> db \<Rightarrow> db" where
  "likeRequests [] aid d = d"
| "likeRequests ((now, u) # rs) aid d = likeRequests rs aid (snd (likeActivity now u aid d))"

subsection \<open>Trending activities (Activity.getTrendingActivities)\<close>

record trendingRow =
  row_id :: objectId
  row_title :: string
  row_likeCount :: nat
  row_commentCount :: nat
  engagementScore :: nat
  row_createdAt :: date
  row_user :: "string list"

text \<open>The \<open>$addFields\<close> stage: \<open>$add [$size likes, $multiply [$size comments, 2]]\<close>.\<close>

definition engagement :: "activity \<Rightarrow> nat" where
  "engagement a = length (likes a) + length (comments a) * 2"

text \<open>The \<open>$sort\<close> stage \<open>{engagementScore: -1, createdAt: -1}\<close>: ascending in the negated
  pair, compared lexicographically.\<close>

definition sortKey :: "activity \<Rightarrow> int \<times> int" where
  "sortKey a = (- int (engagement a), - act_createdAt a)"

text \<open>The \<open>$lookup\<close> and \<open>$project\<close> stages: the owner's user documents, of which the
  username is kept, and the projected fields.\<close>

definition projectRow :: "db \<Rightarrow> activity \<Rightarrow> trendingRow" where
  "projectRow d a =
     \<lparr>row_id = act_id a, row_title = title a,
      row_likeCount = length (likes a), row_commentCount = length (comments a),
      engagementScore = engagement a, row_createdAt = act_createdAt a,
      row_user = map username (filter (\<lambda>u. user_id u = act_userId a) (users d))\<rparr>"

definition trendingMatch :: "activity \<Rightarrow> bool" where
  "trendingMatch a = (isShared a \<and> act_isActive a)"

datatype dbError = LimitNotPositive

text \<open>The database rejects a \<open>$limit\<close> that is not positive; the promise is then
  rejected.\<close>

definition getTrendingActivities :: "int \<Rightarrow> db \<Rightarrow> dbError + trendingRow list" where
  "getTrendingActivities limit d =
     (if limit \<le> 0 then Inl LimitNotPositive
      else Inr (map (projectRow d)
                  (take (nat limit) (sort_key sortKey (filter trendingMatch (activities d))))))"

section \<open>Friend requests (routes/social.js)\<close>

definition pushFriend :: "objectId \<Rightarrow> date \<Rightarrow> user \<Rightarrow> user" where
  "pushFriend other now u =
     u\<lparr>friends := friends u @ [\<lparr>friend_userId = other, friend_status = Pending, addedAt = now\<rparr>]\<rparr>"

text \<open>Two saves of one stored document from two copies, the second copy loaded before the
  first save: the database driver either rejects the second save (a version error) or
  applies its change to the stored document. Which of the two is the driver's versioning,
  which is not in the source.\<close>

datatype staleSave = StaleRejected | StaleApplied

text \<open>The two pushes and the two saves of a friend request, the sender's first. When the
  recipient is the sender's own document, the second save is one from a stale copy: rejected,
  it throws after the first save and the \<open>catch\<close> answers 500; applied, both entries end up
  in the one list.\<close>

definition writeFriendRequest :: "staleSave \<Rightarrow> date \<Rightarrow> user \<Rightarrow> user \<Rightarrow> db \<Rightarrow> response \<times> db" where
  "writeFriendRequest stale now currentUser targetUser d =
     (let cur' = pushFriend (user_id targetUser) now currentUser;
          tgt' = pushFriend (user_id currentUser) now targetUser;
          d1 = saveUser cur' d
      in if user_id targetUser \<noteq> user_id currentUser
         then (reply 200 ''Friend request sent successfully'', saveUser tgt' d1)
         else (case stale of
                 StaleRejected \<Rightarrow> (reply 500 ''Error sending friend request'', d1)
               | StaleApplied \<Rightarrow>
                   (reply 200 ''Friend request sent successfully'',
                    saveUser (pushFriend (user_id currentUser) now cur') d1)))"

text \<open>\<open>POST /api/social/friends/request\<close>. \<open>!username\<close> holds of a missing and of an empty
  username; the comparison with the sender's own username is on the name as sent, the lookup
  on the trimmed name. The check for an existing entry looks at the sender's list only, at
  the first entry for the recipient, and rejects the statuses \<open>accepted\<close> and \<open>pending\<close>;
  any other entry falls through to the two pushes.\<close>

definition sendFriendRequest ::
  "staleSave \<Rightarrow> date \<Rightarrow> user \<Rightarrow> string option \<Rightarrow> db \<Rightarrow> response \<times> db" where
  "sendFriendRequest stale now reqUser body_username d =
     (case body_username of
        None \<Rightarrow> (reply 400 ''Username is required'', d)
      | Some name \<Rightarrow>
          if name = [] then (reply 400 ''Username is required'', d)
          else if name = username reqUser
          then (reply 400 ''Cannot send friend request to yourself'', d)
          else
            (case findUserByName name d of
               None \<Rightarrow> (reply 404 ''User not found'', d)
             | Some targetUser \<Rightarrow>
                 (case findUserById (user_id reqUser) d of
                    None \<Rightarrow> (reply 500 ''Error sending friend request'', d)
                  | Some currentUser \<Rightarrow>
                      (case find (\<lambda>f. friend_userId f = user_id targetUser)
                              (friends currentUser) of
                         Some existingFriend \<Rightarrow>
                           if friend_status existingFriend = Accepted
                           then (reply 400 ''Already friends'', d)
                           else if friend_status existingFriend = Pending
                           then (reply 400 ''Friend request already sent'', d)
                           else writeFriendRequest stale now currentUser targetUser d
                       | None \<Rightarrow> writeFriendRequest stale now currentUser targetUser d))))"

definition acceptEntry :: "objectId \<Rightarrow> user \<Rightarrow> user" where
  "acceptEntry other u =
     u\<lparr>friends := updateFirst (\<lambda>f. friend_userId f = other)
                     (\<lambda>f. f\<lparr>friend_status := Accepted\<rparr>) (friends u)\<rparr>"

text \<open>\<open>POST /api/social/friends/accept\<close>. Both documents are loaded first; the two saves
  follow each other, the current user's first.\<close>

definition acceptFriendRequest :: "user \<Rightarrow> objectId option \<Rightarrow> db \<Rightarrow> response \<times> db" where
  "acceptFriendRequest reqUser body_userId d =
     (case body_userId of
        None \<Rightarrow> (reply 400 ''User ID is required'', d)
      | Some userId \<Rightarrow>
          (case findUserById userId d of
             None \<Rightarrow> (reply 404 ''User not found'', d)
           | Some targetUser \<Rightarrow>
               (case findUserById (user_id reqUser) d of
                  None \<Rightarrow> (reply 500 ''Error accepting friend request'', d)
                | Some currentUser \<Rightarrow>
                    (case (find (\<lambda>f. friend_userId f = userId) (friends currentUser),
                           find (\<lambda>f. friend_userId f = user_id reqUser) (friends targetUser)) of
                       (Some currentUserFriend, Some targetUserFriend) \<Rightarrow>
                         (reply 200 ''Friend request accepted'',
                          saveUser (acceptEntry (user_id reqUser) targetUser)
                            (saveUser (acceptEntry userId currentUser) d))
                     | _ \<Rightarrow> (reply 400 ''Friend request not found'', d)))))"

text \<open>The status a user's list reports for another user: that of the first entry for
  them, the one \<open>find\<close> returns.\<close>

definition friendStatusOf :: "objectId \<Rightarrow> objectId \<Rightarrow> db \<Rightarrow> friendStatus option" where
  "friendStatusOf a b d =
     (case findUserById a d of
        None \<Rightarrow> None
      | Some u \<Rightarrow> map_option friend_status (find (\<lambda>f. friend_userId f = b) (friends u)))"

section \<open>Group membership (models/Group.js, routes/social.js)\<close>

definition activeMemberCount :: "group \<Rightarrow> nat" where
  "activeMemberCount g = length (filter member_isActive (members g))"

definition addMember :: "date \<Rightarrow> objectId \<Rightarrow> groupRole \<Rightarrow> group \<Rightarrow> group" where
  "addMember now uid role g =
     (case find (\<lambda>m. member_userId m = uid) (members g) of
        None \<Rightarrow>
          g\<lparr>members := members g @
              [\<lparr>member_userId = uid, member_role = role, member_joinedAt = now,
                member_isActive = True\<rparr>]\<rparr>
      | Some existingMember \<Rightarrow>
          if \<not> member_isActive existingMember
          then g\<lparr>members := updateFirst (\<lambda>m. member_userId m = uid)
                               (\<lambda>m. m\<lparr>member_isActive := True, member_joinedAt := now\<rparr>)
                               (members g)\<rparr>
          else g)"

definition pushUserGroup :: "objectId \<Rightarrow> date \<Rightarrow> user \<Rightarrow> user" where
  "pushUserGroup gid now u =
     u\<lparr>userGroups := userGroups u @ [\<lparr>ug_groupId = gid, ug_role = Member, ug_joinedAt = now\<rparr>]\<rparr>"

text \<open>\<open>POST /api/social/groups/:groupId/join\<close>.\<close>

definition joinGroup :: "date \<Rightarrow> user \<Rightarrow> objectId \<Rightarrow> db \<Rightarrow> response \<times> db" where
  "joinGroup now reqUser gid d =
     (case findGroupById gid d of
        None \<Rightarrow> (reply 404 ''Group not found'', d)
      | Some g \<Rightarrow>
          if \<not> group_isActive g then (reply 404 ''Group not found'', d)
          else if group_privacy g = Private
          then (reply 403 ''Cannot join private group without invitation'', d)
          else
            (case find (\<lambda>m. member_userId m = user_id reqUser \<and> member_isActive m)
                    (members g) of
               Some existingMember \<Rightarrow> (reply 400 ''Already a member of this group'', d)
             | None \<Rightarrow>
                 if int (activeMemberCount g) \<ge> maxMembers g
                 then (reply 400 ''Group has reached maximum member limit'', d)
                 else
                   (let d1 = saveGroup (addMember now (user_id reqUser) Member g) d
                    in case findUserById (user_id reqUser) d1 of
                         None \<Rightarrow> (reply 500 ''Error joining group'', d1)
                       | Some u \<Rightarrow>
                           (reply 200 ''Successfully joined group'',
                            saveUser (pushUserGroup (group_id g) now u) d1))))"

section \<open>Challenge progress (models/Group.js, routes/social.js)\<close>

text \<open>\<open>progress >= challenge.goal.target\<close>: the comparison with an undefined target is
  false (undefined converts to NaN), the comparison with null is that with 0 (null converts
  to 0).\<close>

definition reachesTarget :: "int \<Rightarrow> goalTarget \<Rightarrow> bool" where
  "reachesTarget p target =
     (case target of
        TargetAbsent \<Rightarrow> False
      | TargetNull \<Rightarrow> p \<ge> 0
      | TargetNumber t \<Rightarrow> p \<ge> t)"

definition setProgress :: "date \<Rightarrow> int \<Rightarrow> goalTarget \<Rightarrow> participant \<Rightarrow> participant" where
  "setProgress now p target x =
     (if reachesTarget p target
      then x\<lparr>progress := p, lastUpdate := now, part_isCompleted := True\<rparr>
      else x\<lparr>progress := p, lastUpdate := now\<rparr>)"

text \<open>\<open>this.challenges.id(challengeId)\<close> is the first challenge with that id, or null.\<close>

definition updateChallengeProgress :: "date \<Rightarrow> objectId \<Rightarrow> objectId \<Rightarrow> int \<Rightarrow> group \<Rightarrow> group" where
  "updateChallengeProgress now cid uid p g =
     (case find (\<lambda>c. ch_id c = cid) (challenges g) of
        None \<Rightarrow> g
      | Some ch \<Rightarrow>
          (case find (\<lambda>x. part_userId x = uid) (participants ch) of
             None \<Rightarrow> g
           | Some participant \<Rightarrow>
               g\<lparr>challenges :=
                   updateFirst (\<lambda>c. ch_id c = cid)
                     (\<lambda>c. c\<lparr>participants :=
                               updateFirst (\<lambda>x. part_userId x = uid)
                                 (setProgress now p (goalTarget c)) (participants c)\<rparr>)
                     (challenges g)\<rparr>))"

text \<open>A sequence of progress updates on one group: time, challenge, user, progress.\<close>

fun progressUpdates :: "(date \<times> objectId \<times> objectId \<times> int) list \<Rightarrow> group \<Rightarrow> group" where
  "progressUpdates [] g = g"
| "progressUpdates ((now, cid, uid, p) # us) g =
     progressUpdates us (updateChallengeProgress now cid uid p g)"

text \<open>The value of \<open>req.app.get('io')\<close>: the socket server when the application has
  stored it in its settings under that name, undefined otherwise.\<close>

datatype ioSetting = IoUndefined | IoServer

text \<open>\<open>server.js\<close> creates the socket server and exports it, and never stores it in the
  settings of the application (there is no \<open>app.set('io', io)\<close>).\<close>

definition serverIo :: ioSetting where
  "serverIo = IoUndefined"

text \<open>\<open>POST /api/social/groups/:groupId/challenges/:challengeId/progress\<close>; the second
  component of the result is what is emitted to the group's room. The emit follows the save:
  with \<open>req.app.get('io')\<close> undefined the call of \<open>to\<close> on it throws, and the \<open>catch\<close>
  answers 500.\<close>

definition postProgress ::
  "ioSetting \<Rightarrow> date \<Rightarrow> user \<Rightarrow> objectId \<Rightarrow> objectId \<Rightarrow> jsonValue \<Rightarrow> db
     \<Rightarrow> response \<times> progressEvent list \<times> db" where
  "postProgress io now reqUser gid cid body_progress d =
     (case body_progress of
        JNumber p \<Rightarrow>
          (case findGroupById gid d of
             None \<Rightarrow> (reply 404 ''Group not found'', [], d)
           | Some g \<Rightarrow>
               if \<not> group_isActive g then (reply 404 ''Group not found'', [], d)
               else
                 (let d1 = saveGroup (updateChallengeProgress now cid (user_id reqUser) p g) d
                  in case io of
                       IoUndefined \<Rightarrow> (reply 500 ''Error updating challenge progress'', [], d1)
                     | IoServer \<Rightarrow>
                         (reply 200 ''Progress updated successfully'',
                          [\<lparr>ev_groupId = gid, ev_challengeId = cid, ev_userId = user_id reqUser,
                            ev_progress = p\<rparr>],
                          d1)))
      | _ \<Rightarrow> (reply 400 ''Progress must be a number'', [], d))"

section \<open>Ranking and preservation, as the properties below state them\<close>

text \<open>One row is ranked before another: a higher engagement score, or the same score and
  created no earlier.\<close>

definition rankedBefore :: "trendingRow \<Rightarrow> trendingRow \<Rightarrow> bool" where
  "rankedBefore r s =
     (engagementScore s < engagementScore r \<or>
      engagementScore s = engagementScore r \<and> row_createdAt s \<le> row_createdAt r)"

text \<open>The output of the \<open>$match\<close> and \<open>$sort\<close> stages.\<close>

definition trendingOrder :: "db \<Rightarrow> activity list" where
  "trendingOrder d = sort_key sortKey (filter trendingMatch (activities d))"

text \<open>A participant list after some updates: the same participants at the same positions,
  and whoever was completed still is.\<close>

definition keepsCompleted :: "participant list \<Rightarrow> participant list \<Rightarrow> bool" where
  "keepsCompleted ps ps' =
     (length ps' = length ps \<and>
      (\<forall>i<length ps. part_userId (ps' ! i) = part_userId (ps ! i) \<and>
                     (part_isCompleted (ps ! i) \<longrightarrow> part_isCompleted (ps' ! i))))"

definition keepsAllCompleted :: "group \<Rightarrow> group \<Rightarrow> bool" where
  "keepsAllCompleted g g' =
     (length (challenges g') = length (challenges g) \<and>
      (\<forall>i<length (challenges g).
         ch_id (challenges g' ! i) = ch_id (challenges g ! i) \<and>
         keepsCompleted (participants (challenges g ! i)) (participants (challenges g' ! i))))"

section \<open>Example data\<close>

definition ana :: user where
  "ana = \<lparr>user_id = 1, username = ''ana'',
           streak = \<lparr>currentStreak = 3, longestStreak = 5,
                      lastActivityDate = Some 1704150000000, totalActivitiesCompleted = 9\<rparr>,
           friends = [], userGroups = [], user_isActive = True\<rparr>"

definition bob :: user where
  "bob = \<lparr>user_id = 2, username = ''bob'',
           streak = \<lparr>currentStreak = 0, longestStreak = 0,
                      lastActivityDate = None, totalActivitiesCompleted = 0\<rparr>,
           friends = [], userGroups = [], user_isActive = True\<rparr>"

definition breathe :: activity where
  "breathe = \<lparr>act_id = 7, act_userId = 1, title = ''Breathe'',
     completion = \<lparr>isCompleted = True, completedAt = Some 1704150000000, rating = Some 4,
                   feedback = None, moodBefore = Some ''stressed'', moodAfter = Some ''calm'',
                   completionNotes = None\<rparr>,
     isShared = True, likes = [\<lparr>like_userId = 2, likedAt = 1704150500000\<rparr>], comments = [],
     act_isActive = True, act_createdAt = 1704100000000\<rparr>"

definition likesBy :: "objectId list \<Rightarrow> like list" where
  "likesBy us = map (\<lambda>u. \<lparr>like_userId = u, likedAt = 1704150500000\<rparr>) us"

definition commentsBy :: "objectId list \<Rightarrow> comment list" where
  "commentsBy us =
     map (\<lambda>u. \<lparr>comment_userId = u, comment_content = ''nice'',
               comment_createdAt = 1704150600000\<rparr>) us"

definition sharedActivity ::
  "objectId \<Rightarrow> objectId \<Rightarrow> string \<Rightarrow> objectId list \<Rightarrow> objectId list \<Rightarrow> date \<Rightarrow> activity" where
  "sharedActivity i owner t likers commenters created =
     \<lparr>act_id = i, act_userId = owner, title = t,
      completion = \<lparr>isCompleted = False, completedAt = None, rating = None, feedback = None,
                    moodBefore = None, moodAfter = None, completionNotes = None\<rparr>,
      isShared = True, likes = likesBy likers, comments = commentsBy commenters,
      act_isActive = True, act_createdAt = created\<rparr>"

text \<open>Scores 5, 6 and 5: five likes; two likes and two comments; one like and two comments,
  the most recent of the three.\<close>

definition walk :: activity where
  "walk = sharedActivity 11 2 ''Walk'' [1, 2, 3, 4, 5] [] 1704200000000"

definition stretch :: activity where
  "stretch = sharedActivity 12 1 ''Stretch'' [2, 3] [2, 3] 1704100000000"

definition journal :: activity where
  "journal = sharedActivity 13 2 ''Journal'' [1] [1, 3] 1704300000000"

definition exampleBody :: completeBody where
  "exampleBody = \<lparr>b_rating = Some 5, b_feedback = None, b_moodBefore = None,
                   b_moodAfter = Some ''happy'', b_notes = None\<rparr>"

text \<open>A group one short of its two places, with an inactive entry for bob and a challenge
  that ana has completed; a full group; a private group.\<close>

definition circle :: group where
  "circle = \<lparr>group_id = 20, group_name = ''Circle'', group_privacy = Public,
     members = [\<lparr>member_userId = 1, member_role = Admin, member_joinedAt = 1704000000000,
                  member_isActive = True\<rparr>,
                \<lparr>member_userId = 2, member_role = Member, member_joinedAt = 1704000001000,
                  member_isActive = False\<rparr>],
     challenges = [\<lparr>ch_id = 30, ch_title = ''Ten days'', goalTarget = TargetNumber 10,
                     participants = [\<lparr>part_userId = 1, progress = 10,
                                      lastUpdate = 1704100000000, part_isCompleted = True\<rparr>],
                     ch_isActive = True\<rparr>],
     maxMembers = 2, group_isActive = True\<rparr>"

definition duo :: group where
  "duo = \<lparr>group_id = 21, group_name = ''Duo'', group_privacy = InviteOnly,
     members = [\<lparr>member_userId = 1, member_role = Admin, member_joinedAt = 1704000000000,
                  member_isActive = True\<rparr>],
     challenges = [], maxMembers = 1, group_isActive = True\<rparr>"

definition secret :: group where
  "secret = \<lparr>group_id = 22, group_name = ''Secret'', group_privacy = Private,
     members = [\<lparr>member_userId = 1, member_role = Admin, member_joinedAt = 1704000000000,
                  member_isActive = True\<rparr>],
     challenges = [], maxMembers = 100, group_isActive = True\<rparr>"

definition exampleDb :: db where
  "exampleDb = \<lparr>activities = [breathe, walk, stretch, journal], users = [ana, bob],
                 groups = [circle, duo, secret]\<rparr>"

definition friendOf :: "objectId \<Rightarrow> friendStatus \<Rightarrow> friendEntry" where
  "friendOf u s = \<lparr>friend_userId = u, friend_status = s, addedAt = 1704150000000\<rparr>"

text \<open>The two users with a pending request between them, and ana with an entry of status
  \<open>blocked\<close> for bob.\<close>

definition anaPending :: user where
  "anaPending = ana\<lparr>friends := [friendOf 2 Pending]\<rparr>"

definition bobPending :: user where
  "bobPending = bob\<lparr>friends := [friendOf 1 Pending]\<rparr>"

definition anaBlocked :: user where
  "anaBlocked = ana\<lparr>friends := [friendOf 2 Blocked]\<rparr>"

definition pendingDb :: db where
  "pendingDb = exampleDb\<lparr>users := [anaPending, bobPending]\<rparr>"

definition blockedDb :: db where
  "blockedDb = exampleDb\<lparr>users := [anaBlocked, bob]\<rparr>"

text \<open>The same two users after ana's request to bob at 1704160000000.\<close>

definition anaBlockedRequested :: user where
  "anaBlockedRequested = pushFriend 2 1704160000000 anaBlocked"

definition bobRequested :: user where
  "bobRequested = pushFriend 1 1704160000000 bob"

definition blockedRequestedDb :: db where
  "blockedRequestedDb = exampleDb\<lparr>users := [anaBlockedRequested, bobRequested]\<rparr>"

section \<open>Lists: the first matching element\<close>

lemma length_updateFirst [simp]: "length (updateFirst P f xs) = length xs"
  by (induction xs) simp_all

lemma updateFirst_same: "find P xs = Some x \<Longrightarrow> updateFirst P (\<lambda>_. x) xs = xs"
  by (induction xs) (auto split: if_splits)

lemma updateFirst_absent: "find P xs = None \<Longrightarrow> updateFirst P f xs = xs"
  by (induction xs) (auto split: if_splits)

lemma find_updateFirst_hit:
  "find P xs = Some x \<Longrightarrow> P (f x) \<Longrightarrow> find P (updateFirst P f xs) = Some (f x)"
  by (induction xs) (auto split: if_splits)

lemma find_updateFirst_miss:
  "(\<And>x. P x \<Longrightarrow> \<not> Q x) \<Longrightarrow> (\<And>x. P x \<Longrightarrow> \<not> Q (f x)) \<Longrightarrow>
     find Q (updateFirst P f xs) = find Q xs"
  by (induction xs) (auto split: if_splits)

lemma find_Some_holds: "find P xs = Some x \<Longrightarrow> P x \<and> x \<in> set xs"
  by (induction xs) (auto split: if_splits)

lemma find_key_None: "find (\<lambda>x. k x = u) xs = None \<longleftrightarrow> u \<notin> k ` set xs"
  by (induction xs) auto

lemma find_key_absent: "u \<notin> k ` set xs \<Longrightarrow> find (\<lambda>x. k x = u \<and> Q x) xs = None"
  by (induction xs) auto

lemma find_by_unique_key:
  "distinct (map k xs) \<Longrightarrow> a \<in> set xs \<Longrightarrow>
     find (\<lambda>x. k x = k a \<and> Q x) xs = (if Q a then Some a else None)"
proof (induction xs)
  case Nil
  then show ?case by simp
next
  case (Cons x xs)
  show ?case
  proof (cases "x = a")
    case True
    with Cons.prems have "k a \<notin> k ` set xs" by simp
    then have "find (\<lambda>x. k x = k a \<and> Q x) xs = None"
      by (rule find_key_absent)
    with True show ?thesis by simp
  next
    case False
    with Cons.prems have "a \<in> set xs" "k x \<noteq> k a" by auto
    with Cons show ?thesis by simp
  qed
qed

lemma map_key_updateFirst:
  "k y = u \<Longrightarrow> map k (updateFirst (\<lambda>x. k x = u) (\<lambda>_. y) xs) = map k xs"
  by (induction xs) auto

lemma nth_updateFirst:
  "i < length xs \<Longrightarrow> updateFirst P f xs ! i = xs ! i \<or> updateFirst P f xs ! i = f (xs ! i)"
proof (induction xs arbitrary: i)
  case Nil
  then show ?case by simp
next
  case (Cons x xs)
  then show ?case by (cases i) auto
qed

lemma set_updateFirst_const:
  "set (updateFirst P (\<lambda>_. y) xs) \<subseteq> insert y (set xs)"
  by (induction xs) auto

lemma set_updateFirst_hit:
  "find P xs = Some x \<Longrightarrow> f x \<in> set (updateFirst P f xs)"
  by (induction xs) (auto split: if_splits)

lemma count_updateFirst_activate:
  "find P xs = Some x \<Longrightarrow> \<not> A x \<Longrightarrow> A (f x) \<Longrightarrow>
     length (filter A (updateFirst P f xs)) = Suc (length (filter A xs))"
  by (induction xs) (auto split: if_splits)

lemma filter_others_updateFirst:
  "(\<And>x. k (f x) = k x) \<Longrightarrow>
     filter (\<lambda>x. k x \<noteq> u) (updateFirst (\<lambda>x. k x = u) f xs) = filter (\<lambda>x. k x \<noteq> u) xs"
  by (induction xs) auto

lemma filter_out_unique_key:
  "distinct (map k xs) \<Longrightarrow> u \<in> k ` set xs \<Longrightarrow>
     \<exists>ys l zs. xs = ys @ l # zs \<and> k l = u \<and> filter (\<lambda>x. k x \<noteq> u) xs = ys @ zs"
proof (induction xs)
  case Nil
  then show ?case by simp
next
  case (Cons x xs)
  show ?case
  proof (cases "k x = u")
    case True
    with Cons.prems have "u \<notin> k ` set xs" by auto
    then have "filter (\<lambda>x. k x \<noteq> u) xs = xs"
      by (auto simp: filter_id_conv)
    with True have "x # xs = [] @ x # xs \<and> k x = u \<and> filter (\<lambda>x. k x \<noteq> u) (x # xs) = [] @ xs"
      by simp
    then show ?thesis by blast
  next
    case False
    with Cons.prems have "distinct (map k xs)" "u \<in> k ` set xs" by auto
    from Cons.IH [OF this] obtain ys l zs
      where "xs = ys @ l # zs" "k l = u" "filter (\<lambda>x. k x \<noteq> u) xs = ys @ zs"
      by blast
    with False have "x # xs = (x # ys) @ l # zs \<and> k l = u \<and>
        filter (\<lambda>x. k x \<noteq> u) (x # xs) = (x # ys) @ zs"
      by simp
    then show ?thesis by blast
  qed
qed

section \<open>Properties of the streak computation\<close>

lemma adjustStreak_longest [simp]:
  "longestStreak (adjustStreak today s) = longestStreak s"
  by (simp add: adjustStreak_def split: option.split)

lemma adjustStreak_total [simp]:
  "totalActivitiesCompleted (adjustStreak today s) = totalActivitiesCompleted s"
  by (simp add: adjustStreak_def split: option.split)

lemma raiseLongest_longest:
  "longestStreak (raiseLongest s) = max (longestStreak s) (currentStreak s)"
  by (simp add: raiseLongest_def)

lemma raiseLongest_current [simp]:
  "currentStreak (raiseLongest s) = currentStreak s"
  by (simp add: raiseLongest_def)

lemma raiseLongest_total [simp]:
  "totalActivitiesCompleted (raiseLongest s) = totalActivitiesCompleted s"
  by (simp add: raiseLongest_def)

lemma updateStreakData_current:
  "currentStreak (updateStreakData today s) = currentStreak (adjustStreak today s)"
  by (simp add: updateStreakData_def Let_def)

lemma updateStreakData_longest:
  "longestStreak (updateStreakData today s) =
     max (longestStreak s) (currentStreak (adjustStreak today s))"
  by (simp add: updateStreakData_def Let_def raiseLongest_longest)

lemma updateStreakData_total:
  "totalActivitiesCompleted (updateStreakData today s) = totalActivitiesCompleted s + 1"
  by (simp add: updateStreakData_def Let_def)

text \<open>What the code does, case by case on its own day count \<^const>\<open>daysDiff\<close> (whole
  elapsed periods of 24 hours, not calendar days).\<close>

lemma updateStreak_by_elapsed_days:
  "currentStreak (streak (updateStreak today u)) =
     (case lastActivityDate (streak u) of
        None \<Rightarrow> 1
      | Some l \<Rightarrow> if daysDiff today l = 1 then currentStreak (streak u) + 1
                  else if daysDiff today l > 1 then 1
                  else currentStreak (streak u))"
  by (simp add: updateStreak_def updateStreakData_current adjustStreak_def split: option.split)

lemma updateStreak_longest_max:
  "longestStreak (streak (updateStreak today u)) =
     max (longestStreak (streak u)) (currentStreak (streak (updateStreak today u)))"
  by (simp add: updateStreak_def updateStreakData_longest updateStreakData_current)

lemma updateStreak_total:
  "totalActivitiesCompleted (streak (updateStreak today u)) =
     totalActivitiesCompleted (streak u) + 1"
  by (simp add: updateStreak_def updateStreakData_total)

lemma updateStreak_longest_mono:
  "longestStreak (streak u) \<le> longestStreak (streak (updateStreak today u))"
  by (simp add: updateStreak_longest_max)

lemma completions_longest_mono:
  "longestStreak (streak u) \<le> longestStreak (streak (completions ts u))"
proof (induction ts arbitrary: u)
  case Nil
  show ?case by simp
next
  case (Cons t ts)
  have "longestStreak (streak u) \<le> longestStreak (streak (updateStreak t u))"
    by (rule updateStreak_longest_mono)
  also have "\<dots> \<le> longestStreak (streak (completions ts (updateStreak t u)))"
    by (rule Cons.IH)
  finally show ?case by simp
qed

lemma completions_append:
  "completions (ts @ ts') u = completions ts' (completions ts u)"
  by (induction ts arbitrary: u) simp_all

text \<open>Three calendar days in a row, each with a completion (day one at 23:00, day two at
  22:00, day three at 23:30, UTC): the second completion counts as the same day, and the
  third, more than 48 hours after the first, resets the streak.\<close>

lemma updateStreak_three_days_in_a_row:
  "map calendarDay [1704150000000, 1704232800000, 1704324600000] = [19723, 19724, 19725] \<and>
   currentStreak (streak (completions [1704232800000, 1704324600000] ana)) = 1"
  by (simp add: calendarDay_def msPerDay_def ana_def updateStreak_def updateStreakData_def
      adjustStreak_def raiseLongest_def daysDiff_def)

text \<open>A skipped calendar day: last activity on day one at 23:00, the next on day three at
  01:00, 26 hours later. The code counts one day and increments the streak.\<close>

lemma updateStreak_skipped_day:
  "calendarDayDiff 1704243600000 1704150000000 = 2 \<and>
   daysDiff 1704243600000 1704150000000 = 1 \<and>
   currentStreak (streak (updateStreak 1704243600000 ana)) = currentStreak (streak ana) + 1"
  by (simp add: calendarDayDiff_def calendarDay_def msPerDay_def ana_def updateStreak_def
      updateStreakData_def adjustStreak_def raiseLongest_def daysDiff_def)

text \<open>
  C1. The rule as specified compares \<open>lastActivityDate\<close> to today by calendar-day
  difference and increments \<open>currentStreak\<close> on a difference of one day. The code counts
  whole elapsed periods of 24 hours instead. A user at streak 3 whose last activity was on
  2024-01-01 at 23:00 UTC and who completes an activity on 2024-01-02 at 01:00 UTC is one
  calendar day later, yet the code computes a day count of 0, takes its "same day" branch and
  leaves \<open>currentStreak\<close> at 3 (and \<open>lastActivityDate\<close> at the old date); only
  \<open>totalActivitiesCompleted\<close> moves.
\<close>

theorem C1_updateStreak_calendar_day_gap:
  "calendarDayDiff 1704157200000 1704150000000 = 1 \<and>
   daysDiff 1704157200000 1704150000000 = 0 \<and>
   streak (updateStreak 1704157200000
     \<lparr>user_id = 1, username = ''ana'',
      streak = \<lparr>currentStreak = 3, longestStreak = 5,
                lastActivityDate = Some 1704150000000, totalActivitiesCompleted = 9\<rparr>,
      friends = [], userGroups = [], user_isActive = True\<rparr>)
   = \<lparr>currentStreak = 3, longestStreak = 5,
      lastActivityDate = Some 1704150000000, totalActivitiesCompleted = 10\<rparr>"
  by (simp add: calendarDayDiff_def calendarDay_def daysDiff_def msPerDay_def
      updateStreak_def updateStreakData_def adjustStreak_def raiseLongest_def)

text \<open>
  C2. \<open>longestStreak\<close> never decreases: it is at least its old value after one completion
  event, whatever the time of the event and the state of the user, hence after each event of
  any sequence of completion events and at the end of the sequence.
\<close>

theorem C2_longestStreak_never_decreases:
  "longestStreak (streak u) \<le> longestStreak (streak (updateStreak today u)) \<and>
   longestStreak (streak (completions ts u))
     \<le> longestStreak (streak (completions (ts @ [today]) u)) \<and>
   longestStreak (streak u) \<le> longestStreak (streak (completions ts u))"
proof (intro conjI)
  show "longestStreak (streak u) \<le> longestStreak (streak (updateStreak today u))"
    by (rule updateStreak_longest_mono)
  show "longestStreak (streak (completions ts u))
          \<le> longestStreak (streak (completions (ts @ [today]) u))"
    by (simp add: completions_append updateStreak_longest_mono)
  show "longestStreak (streak u) \<le> longestStreak (streak (completions ts u))"
    by (rule completions_longest_mono)
qed

section \<open>Properties of completion and likes\<close>

lemma completeActivity_completed:
  assumes "a \<in> set (activities d)"
    and "distinct (map act_id (activities d))"
    and "isCompleted (completion a)"
  shows "completeActivity now reqUser (act_id a) body d =
           (if act_userId a = user_id reqUser \<and> act_isActive a
            then reply 400 ''Activity already completed''
            else reply 404 ''Activity not found'', d)"
proof -
  have "find (\<lambda>x. act_id x = act_id a \<and> act_userId x = user_id reqUser \<and> act_isActive x)
          (activities d) =
        (if act_userId a = user_id reqUser \<and> act_isActive a then Some a else None)"
    using find_by_unique_key [OF assms(2) assms(1),
        of "\<lambda>x. act_userId x = user_id reqUser \<and> act_isActive x"] by simp
  then show ?thesis
    using assms(3) by (simp add: completeActivity_def)
qed

lemma completeActivity_success:
  assumes "status (fst (completeActivity now reqUser aid body d)) = 200"
  obtains act u where
    "find (\<lambda>a. act_id a = aid \<and> act_userId a = user_id reqUser \<and> act_isActive a)
       (activities d) = Some act"
    "\<not> isCompleted (completion act)"
    "completeActivity now reqUser aid body d =
       (\<lparr>status = 200, message = ''Activity completed successfully'',
         payload = StreakInfo (streak (updateStreak now u))\<rparr>,
        saveUser (updateStreak now u)
          (saveActivity (markCompleted now (b_rating body) (b_feedback body)
             (b_moodBefore body) (b_moodAfter body) (b_notes body) act) d))"
  using assms
  by (auto simp: completeActivity_def reply_def Let_def split: option.splits if_splits)

lemma completeActivity_twice:
  assumes "distinct (map act_id (activities d))"
    and "status (fst (completeActivity now reqUser aid body d)) = 200"
  shows "completeActivity now' reqUser aid body' (snd (completeActivity now reqUser aid body d))
           = (reply 400 ''Activity already completed'',
              snd (completeActivity now reqUser aid body d))"
proof -
  let ?P = "\<lambda>a. act_id a = aid \<and> act_userId a = user_id reqUser \<and> act_isActive a"
  from assms(2) obtain act u where
    f: "find ?P (activities d) = Some act"
    and run: "completeActivity now reqUser aid body d =
       (\<lparr>status = 200, message = ''Activity completed successfully'',
         payload = StreakInfo (streak (updateStreak now u))\<rparr>,
        saveUser (updateStreak now u)
          (saveActivity (markCompleted now (b_rating body) (b_feedback body)
             (b_moodBefore body) (b_moodAfter body) (b_notes body) act) d))"
    by (rule completeActivity_success)
  define act' where "act' = markCompleted now (b_rating body) (b_feedback body)
             (b_moodBefore body) (b_moodAfter body) (b_notes body) act"
  define d' where "d' = saveUser (updateStreak now u) (saveActivity act' d)"
  from f have act: "?P act" "act \<in> set (activities d)"
    by (auto dest: find_Some_holds)
  have act': "act_id act' = aid" "act_userId act' = user_id reqUser" "act_isActive act'"
    "isCompleted (completion act')"
    using act(1) by (simp_all add: act'_def markCompleted_def)
  have as': "activities d' = updateFirst (\<lambda>x. act_id x = aid) (\<lambda>_. act') (activities d)"
    by (simp add: d'_def saveUser_def saveActivity_def act'(1))
  have "find (\<lambda>x. act_id x = act_id act \<and> True) (activities d) = Some act"
    using find_by_unique_key [OF assms(1) act(2), of "\<lambda>_. True"] by simp
  then have "find (\<lambda>x. act_id x = aid) (activities d) = Some act"
    using act(1) by simp
  then have "act' \<in> set (updateFirst (\<lambda>x. act_id x = aid) (\<lambda>_. act') (activities d))"
    by (rule set_updateFirst_hit)
  then have mem: "act' \<in> set (activities d')" by (simp add: as')
  have "map act_id (activities d') = map act_id (activities d)"
    unfolding as' using act'(1) by (rule map_key_updateFirst)
  with assms(1) have dist: "distinct (map act_id (activities d'))"
    by simp
  from completeActivity_completed [OF mem dist act'(4), of now' reqUser body'] act'
  have "completeActivity now' reqUser aid body' d' = (reply 400 ''Activity already completed'', d')"
    by simp
  moreover have "snd (completeActivity now reqUser aid body d) = d'"
    by (simp add: run d'_def act'_def)
  ultimately show ?thesis by simp
qed

text \<open>
  C3. An activity that is already completed cannot be completed again. With unique activity
  ids, a completion request for a stored activity whose \<open>isCompleted\<close> is true changes
  nothing in the database (the activity's \<open>completionData\<close> and every user's streak data
  stay as they are), and the response is the 400 "Activity already completed" whenever the
  request reaches the activity, that is when the requester owns it and it is active (else
  the lookup fails and the response is 404). In particular, after a completion request that
  succeeded, a second request by the same user for the same activity, at any time and with
  any body, gets that 400 response and changes nothing.
\<close>

theorem C3_second_completion_rejected:
  assumes "distinct (map act_id (activities d))"
  shows "(a \<in> set (activities d) \<and> isCompleted (completion a) \<longrightarrow>
            completeActivity now reqUser (act_id a) body d =
              (if act_userId a = user_id reqUser \<and> act_isActive a
               then reply 400 ''Activity already completed''
               else reply 404 ''Activity not found'', d)) \<and>
         (status (fst (completeActivity now reqUser aid body d)) = 200 \<longrightarrow>
            completeActivity now' reqUser aid body'
                (snd (completeActivity now reqUser aid body d))
              = (reply 400 ''Activity already completed'',
                 snd (completeActivity now reqUser aid body d)))"
  using assms completeActivity_completed [of a d now reqUser body]
    completeActivity_twice [of d now reqUser aid body now' body']
  by blast

theorem C3_second_completion_rejected_witness:
  "distinct (map act_id (activities exampleDb)) \<and>
   breathe \<in> set (activities exampleDb) \<and> isCompleted (completion breathe) \<and>
   completeActivity 1704157200000 ana 7 exampleBody exampleDb =
     (reply 400 ''Activity already completed'', exampleDb) \<and>
   status (fst (completeActivity 1704157200000 ana 12 exampleBody exampleDb)) = 200 \<and>
   completeActivity 1704157300000 ana 12 exampleBody
       (snd (completeActivity 1704157200000 ana 12 exampleBody exampleDb))
     = (reply 400 ''Activity already completed'',
        snd (completeActivity 1704157200000 ana 12 exampleBody exampleDb))"
proof -
  have acts: "activities exampleDb = [breathe, walk, stretch, journal]"
    and us: "users exampleDb = [ana, bob]"
    by (simp_all add: exampleDb_def)
  have ids: "act_id breathe = 7" "act_id walk = 11" "act_id stretch = 12" "act_id journal = 13"
    by (simp_all add: breathe_def walk_def stretch_def journal_def sharedActivity_def)
  have h1: "distinct (map act_id (activities exampleDb))"
    by (simp add: acts ids)
  have h2: "breathe \<in> set (activities exampleDb) \<and> isCompleted (completion breathe)"
    by (simp add: acts) (simp add: breathe_def)
  have own: "act_userId breathe = user_id ana \<and> act_isActive breathe"
    by (simp add: breathe_def ana_def)
  have st: "act_userId stretch = user_id ana" "act_isActive stretch"
    "\<not> isCompleted (completion stretch)"
    by (simp_all add: stretch_def sharedActivity_def ana_def)
  have first: "status (fst (completeActivity 1704157200000 ana 12 exampleBody exampleDb)) = 200"
    by (simp add: completeActivity_def acts ids st Let_def markCompleted_def validCompletion_def
        exampleBody_def moods_def findUserById_def saveActivity_def us)
  note t = C3_second_completion_rejected [OF h1, where a = breathe and now = 1704157200000
      and reqUser = ana and body = exampleBody and aid = 12 and now' = 1704157300000
      and body' = exampleBody]
  from t [THEN conjunct1, rule_format, OF h2] own
  have r1: "completeActivity 1704157200000 ana 7 exampleBody exampleDb =
     (reply 400 ''Activity already completed'', exampleDb)"
    by (simp add: ids)
  note r2 = t [THEN conjunct2, rule_format, OF first]
  from h1 h2 r1 first r2 show ?thesis by (intro conjI) simp_all
qed

lemma addLike_likes:
  "likes (addLike now uid a) =
     (if uid \<in> like_userId ` set (likes a) then likes a
      else likes a @ [\<lparr>like_userId = uid, likedAt = now\<rparr>])"
proof (cases "find (\<lambda>l. like_userId l = uid) (likes a)")
  case None
  then have "uid \<notin> like_userId ` set (likes a)"
    by (simp add: find_key_None)
  with None show ?thesis by (simp add: addLike_def)
next
  case (Some l)
  then have "uid \<in> like_userId ` set (likes a)"
    using find_key_None [of like_userId uid "likes a"] by simp
  with Some show ?thesis by (simp add: addLike_def)
qed

lemma addLike_unique:
  "distinct (map like_userId (likes a)) \<Longrightarrow> distinct (map like_userId (likes (addLike now uid a)))"
  by (simp add: addLike_likes)

lemma addLike_twice: "addLike now' uid (addLike now uid a) = addLike now uid a"
proof -
  have "uid \<in> like_userId ` set (likes (addLike now uid a))"
    by (simp add: addLike_likes)
  then have "find (\<lambda>l. like_userId l = uid) (likes (addLike now uid a)) \<noteq> None"
    by (simp add: find_key_None)
  then show ?thesis
    by (auto simp: addLike_def [of now' uid "addLike now uid a"])
qed

lemma removeLike_unique:
  "distinct (map like_userId (likes a)) \<Longrightarrow> distinct (map like_userId (likes (removeLike uid a)))"
  by (simp add: removeLike_def distinct_map_filter)

lemma likeActivity_unique:
  assumes "\<forall>x\<in>set (activities d). distinct (map like_userId (likes x))"
  shows "\<forall>x\<in>set (activities (snd (likeActivity now u aid d))). distinct (map like_userId (likes x))"
proof (cases "find (\<lambda>a. act_id a = aid \<and> act_isActive a) (activities d)")
  case None
  with assms show ?thesis by (simp add: likeActivity_def)
next
  case (Some act)
  then have "act \<in> set (activities d)"
    by (auto simp: find_Some_iff)
  with assms have uniq: "distinct (map like_userId (likes act))" by blast
  have step: "\<forall>x\<in>set (activities (saveActivity act' d)). distinct (map like_userId (likes x))"
    if "distinct (map like_userId (likes act'))" for act'
    using that assms set_updateFirst_const [of "\<lambda>x. act_id x = act_id act'" act' "activities d"]
    by (auto simp: saveActivity_def)
  show ?thesis
  proof (cases "find (\<lambda>l. like_userId l = user_id u) (likes act)")
    case None
    with Some step [OF addLike_unique [OF uniq]] show ?thesis
      by (simp add: likeActivity_def Let_def)
  next
    case (Some l)
    with \<open>find (\<lambda>a. act_id a = aid \<and> act_isActive a) (activities d) = Some act\<close>
      step [OF removeLike_unique [OF uniq]] show ?thesis
      by (simp add: likeActivity_def Let_def)
  qed
qed

lemma likeRequests_unique:
  "\<forall>x\<in>set (activities d). distinct (map like_userId (likes x)) \<Longrightarrow>
   \<forall>x\<in>set (activities (likeRequests rs aid d)). distinct (map like_userId (likes x))"
proof (induction rs arbitrary: d)
  case Nil
  then show ?case by simp
next
  case (Cons r rs)
  obtain now u where r: "r = (now, u)" by (cases r)
  from Cons.prems have "\<forall>x\<in>set (activities (snd (likeActivity now u aid d))).
      distinct (map like_userId (likes x))"
    by (rule likeActivity_unique)
  from Cons.IH [OF this] r show ?case by simp
qed

text \<open>
  C4. Likes are unique per user. On an activity whose likes hold no user twice, \<open>addLike\<close>
  keeps it so and liking again changes nothing (a user who has liked is not added a second
  time); \<open>removeLike\<close> of a user who has liked removes exactly that one entry and leaves the
  other entries as they are, in their order; and any sequence of like requests through the
  endpoint keeps the likes of every stored activity free of duplicates.
\<close>

theorem C4_likes_unique_per_user:
  assumes "distinct (map like_userId (likes a))"
    and "\<forall>x\<in>set (activities d). distinct (map like_userId (likes x))"
  shows "distinct (map like_userId (likes (addLike now uid a))) \<and>
         addLike now' uid (addLike now uid a) = addLike now uid a \<and>
         (uid \<in> like_userId ` set (likes a) \<longrightarrow>
            addLike now uid a = a \<and>
            (\<exists>ys l zs. likes a = ys @ l # zs \<and> like_userId l = uid \<and>
                       likes (removeLike uid a) = ys @ zs)) \<and>
         distinct (map like_userId (likes (removeLike uid a))) \<and>
         (\<forall>x\<in>set (activities (likeRequests rs aid d)). distinct (map like_userId (likes x)))"
proof (intro conjI impI)
  show "distinct (map like_userId (likes (addLike now uid a)))"
    using assms(1) by (rule addLike_unique)
  show "addLike now' uid (addLike now uid a) = addLike now uid a"
    by (rule addLike_twice)
  show "distinct (map like_userId (likes (removeLike uid a)))"
    using assms(1) by (rule removeLike_unique)
  show "\<forall>x\<in>set (activities (likeRequests rs aid d)). distinct (map like_userId (likes x))"
    using assms(2) by (rule likeRequests_unique)
next
  assume m: "uid \<in> like_userId ` set (likes a)"
  then have "find (\<lambda>l. like_userId l = uid) (likes a) \<noteq> None"
    by (simp add: find_key_None)
  then show "addLike now uid a = a"
    by (auto simp: addLike_def)
  from filter_out_unique_key [OF assms(1) m]
  show "\<exists>ys l zs. likes a = ys @ l # zs \<and> like_userId l = uid \<and>
                  likes (removeLike uid a) = ys @ zs"
    by (simp add: removeLike_def)
qed

theorem C4_likes_unique_per_user_witness:
  "distinct (map like_userId (likes breathe)) \<and>
   2 \<in> like_userId ` set (likes breathe) \<and>
   likes (addLike 1704157200000 2 breathe) = [\<lparr>like_userId = 2, likedAt = 1704150500000\<rparr>] \<and>
   likes (removeLike 2 breathe) = [] \<and>
   map like_userId (likes (addLike 1704157200000 1 breathe)) = [2, 1] \<and>
   distinct (map like_userId
     (likes (hd (activities (likeRequests [(5, ana), (6, bob), (7, bob)] 7 exampleDb)))))"
proof -
  have h1: "distinct (map like_userId (likes breathe))" by (simp add: breathe_def)
  have h2: "\<forall>x\<in>set (activities exampleDb). distinct (map like_userId (likes x))"
    by (simp add: exampleDb_def breathe_def walk_def stretch_def journal_def
        sharedActivity_def likesBy_def)
  have h3: "2 \<in> like_userId ` set (likes breathe)" by (simp add: breathe_def)
  have e: "hd (activities (likeRequests [(5, ana), (6, bob), (7, bob)] 7 exampleDb))
        \<in> set (activities (likeRequests [(5, ana), (6, bob), (7, bob)] 7 exampleDb))"
    by (simp add: exampleDb_def breathe_def ana_def bob_def likeActivity_def addLike_def
        removeLike_def saveActivity_def)
  from C4_likes_unique_per_user [OF h1 h2, of 1704157200000 2 1704157200000
      "[(5, ana), (6, bob), (7, bob)]" 7] h3 e
  have "addLike 1704157200000 2 breathe = breathe \<and>
        distinct (map like_userId
          (likes (hd (activities (likeRequests [(5, ana), (6, bob), (7, bob)] 7 exampleDb)))))"
    by blast
  then show ?thesis
    using h1 h3 by (simp add: breathe_def removeLike_def addLike_def)
qed

section \<open>Properties of the trending listing\<close>

lemma getTrending_rows:
  "getTrendingActivities limit d = Inr rows \<Longrightarrow>
     0 < limit \<and> rows = map (projectRow d) (take (nat limit) (trendingOrder d))"
  by (auto simp: getTrendingActivities_def trendingOrder_def split: if_splits)

lemma sortKey_le:
  "sortKey a \<le> sortKey b \<longleftrightarrow>
     engagement b < engagement a \<or> engagement b = engagement a \<and> act_createdAt b \<le> act_createdAt a"
  by (auto simp: sortKey_def less_eq_prod_def)

lemma trendingOrder_sorted:
  "i \<le> j \<Longrightarrow> j < length (trendingOrder d) \<Longrightarrow>
     sortKey (trendingOrder d ! i) \<le> sortKey (trendingOrder d ! j)"
proof -
  assume ij: "i \<le> j" "j < length (trendingOrder d)"
  have "sorted (map sortKey (trendingOrder d))"
    by (simp add: trendingOrder_def)
  with ij have "map sortKey (trendingOrder d) ! i \<le> map sortKey (trendingOrder d) ! j"
    by (simp add: sorted_iff_nth_mono)
  with ij show ?thesis by simp
qed

lemma set_trendingOrder:
  "set (trendingOrder d) = {a \<in> set (activities d). isShared a \<and> act_isActive a}"
  by (auto simp: trendingOrder_def trendingMatch_def)

lemma length_trendingOrder:
  "length (trendingOrder d) = length (filter trendingMatch (activities d))"
  by (simp add: trendingOrder_def)

lemma projectRow_fields:
  "row_id (projectRow d a) = act_id a"
  "row_likeCount (projectRow d a) = length (likes a)"
  "row_commentCount (projectRow d a) = length (comments a)"
  "engagementScore (projectRow d a) = engagement a"
  "row_createdAt (projectRow d a) = act_createdAt a"
  by (simp_all add: projectRow_def)

lemma rankedBefore_projectRow:
  "rankedBefore (projectRow d a) (projectRow d b) \<longleftrightarrow> sortKey a \<le> sortKey b"
  by (simp add: rankedBefore_def projectRow_fields sortKey_le)

text \<open>
  C7. The trending listing. Every row it returns comes from a shared, active activity and
  carries the engagement score \<open>likeCount + 2 * commentCount\<close> of that activity; the rows
  are in descending order of score, rows of equal score in descending order of \<open>createdAt\<close>;
  a row of score 6 or more stands strictly before every row of score 5, and when a row of
  score 5 is returned, every shared, active activity of score 6 or more has its row earlier
  in the listing. The listing is the first \<open>limit\<close> rows of that order.
\<close>

theorem C7_trending:
  assumes "getTrendingActivities limit d = Inr rows"
  shows "(\<forall>r\<in>set rows. engagementScore r = row_likeCount r + 2 * row_commentCount r \<and>
            (\<exists>a\<in>set (activities d). isShared a \<and> act_isActive a \<and> r = projectRow d a \<and>
               row_likeCount r = length (likes a) \<and>
               row_commentCount r = length (comments a))) \<and>
         (\<forall>i j. i < j \<and> j < length rows \<longrightarrow> rankedBefore (rows ! i) (rows ! j)) \<and>
         (\<forall>i j. i < length rows \<and> j < length rows \<and>
                6 \<le> engagementScore (rows ! i) \<and> engagementScore (rows ! j) = 5 \<longrightarrow> i < j) \<and>
         (\<forall>a\<in>set (activities d). \<forall>j<length rows.
            isShared a \<and> act_isActive a \<and> 6 \<le> engagement a \<and> engagementScore (rows ! j) = 5
              \<longrightarrow> (\<exists>i<j. rows ! i = projectRow d a)) \<and>
         length rows = min (nat limit) (length (filter trendingMatch (activities d)))"
proof -
  let ?ss = "trendingOrder d"
  let ?n = "nat limit"
  from getTrending_rows [OF assms]
  have rows: "rows = map (projectRow d) (take ?n ?ss)" by simp
  have len: "length rows = min ?n (length ?ss)"
    by (simp add: rows min.commute)
  have nth: "rows ! i = projectRow d (?ss ! i)" if "i < length rows" for i
    using that by (simp add: rows)
  have inb: "i < length ?ss" if "i < length rows" for i
    using that len by simp
  have ranked: "rankedBefore (rows ! i) (rows ! j)" if "i \<le> j" "j < length rows" for i j
  proof -
    from that have "i < length rows" by simp
    with that show ?thesis
      by (simp add: nth rankedBefore_projectRow trendingOrder_sorted inb)
  qed
  have p1: "\<forall>r\<in>set rows. engagementScore r = row_likeCount r + 2 * row_commentCount r \<and>
            (\<exists>a\<in>set (activities d). isShared a \<and> act_isActive a \<and> r = projectRow d a \<and>
               row_likeCount r = length (likes a) \<and>
               row_commentCount r = length (comments a))"
  proof
    fix r assume "r \<in> set rows"
    then obtain a where a: "a \<in> set (take ?n ?ss)" "r = projectRow d a"
      by (auto simp: rows)
    from a(1) have "a \<in> set ?ss" by (rule in_set_takeD)
    then have "a \<in> set (activities d)" "isShared a" "act_isActive a"
      by (simp_all add: set_trendingOrder)
    with a(2) show "engagementScore r = row_likeCount r + 2 * row_commentCount r \<and>
            (\<exists>a\<in>set (activities d). isShared a \<and> act_isActive a \<and> r = projectRow d a \<and>
               row_likeCount r = length (likes a) \<and>
               row_commentCount r = length (comments a))"
      by (auto simp: projectRow_def engagement_def)
  qed
  have p2: "\<forall>i j. i < j \<and> j < length rows \<longrightarrow> rankedBefore (rows ! i) (rows ! j)"
    using ranked by simp
  have p3: "\<forall>i j. i < length rows \<and> j < length rows \<and>
                6 \<le> engagementScore (rows ! i) \<and> engagementScore (rows ! j) = 5 \<longrightarrow> i < j"
  proof (intro allI impI)
    fix i j
    assume h: "i < length rows \<and> j < length rows \<and>
                6 \<le> engagementScore (rows ! i) \<and> engagementScore (rows ! j) = 5"
    show "i < j"
    proof (rule ccontr)
      assume "\<not> i < j"
      then have "j \<le> i" by simp
      with h have "rankedBefore (rows ! j) (rows ! i)" by (simp add: ranked)
      with h show False by (simp add: rankedBefore_def)
    qed
  qed
  have p4: "\<forall>a\<in>set (activities d). \<forall>j<length rows.
            isShared a \<and> act_isActive a \<and> 6 \<le> engagement a \<and> engagementScore (rows ! j) = 5
              \<longrightarrow> (\<exists>i<j. rows ! i = projectRow d a)"
  proof (intro ballI allI impI)
    fix a j
    assume a: "a \<in> set (activities d)" and j: "j < length rows"
      and h: "isShared a \<and> act_isActive a \<and> 6 \<le> engagement a \<and> engagementScore (rows ! j) = 5"
    from a h have "a \<in> set ?ss" by (simp add: set_trendingOrder)
    then obtain i where i: "i < length ?ss" "?ss ! i = a"
      by (auto simp: in_set_conv_nth)
    from j h have sj: "engagement (?ss ! j) = 5"
      by (simp add: nth projectRow_fields)
    have "i < j"
    proof (rule ccontr)
      assume "\<not> i < j"
      then have "j \<le> i" by simp
      from trendingOrder_sorted [OF this i(1)] have "sortKey (?ss ! j) \<le> sortKey a"
        by (simp add: i(2))
      with sj h show False by (simp add: sortKey_le)
    qed
    moreover from this j have "rows ! i = projectRow d a"
      by (simp add: nth i(2))
    ultimately show "\<exists>i<j. rows ! i = projectRow d a" by blast
  qed
  have p5: "length rows = min (nat limit) (length (filter trendingMatch (activities d)))"
    using len by (simp add: length_trendingOrder)
  from p1 p2 p3 p4 p5 show ?thesis
    by (intro conjI)
qed

theorem C7_trending_witness:
  "\<exists>rows. getTrendingActivities 3 exampleDb = Inr rows \<and>
          map row_id rows = [12, 13, 11] \<and>
          map engagementScore rows = [6, 5, 5] \<and>
          map row_createdAt rows = [1704100000000, 1704300000000, 1704200000000] \<and>
          rankedBefore (rows ! 1) (rows ! 2) \<and>
          length rows = min (nat 3) (length (filter trendingMatch (activities exampleDb)))"
proof -
  let ?rows = "map (projectRow exampleDb) [stretch, journal, walk]"
  have acts: "activities exampleDb = [breathe, walk, stretch, journal]"
    by (simp add: exampleDb_def)
  have m: "trendingMatch breathe" "trendingMatch walk" "trendingMatch stretch"
    "trendingMatch journal"
    by (simp_all add: trendingMatch_def breathe_def walk_def stretch_def journal_def
        sharedActivity_def)
  have e: "engagement breathe = 1" "engagement walk = 5" "engagement stretch = 6"
    "engagement journal = 5"
    by (simp_all add: engagement_def breathe_def walk_def stretch_def journal_def
        sharedActivity_def likesBy_def commentsBy_def)
  have c: "act_createdAt breathe = 1704100000000" "act_createdAt walk = 1704200000000"
    "act_createdAt stretch = 1704100000000" "act_createdAt journal = 1704300000000"
    by (simp_all add: breathe_def walk_def stretch_def journal_def sharedActivity_def)
  have i: "act_id walk = 11" "act_id stretch = 12" "act_id journal = 13"
    by (simp_all add: walk_def stretch_def journal_def sharedActivity_def)
  have "sort_key sortKey [breathe, walk, stretch, journal] = [stretch, journal, walk, breathe]"
    by (simp add: sortKey_def e c)
  then have run: "getTrendingActivities 3 exampleDb = Inr ?rows"
    by (simp add: getTrendingActivities_def acts m)
  note t = C7_trending [OF run]
  from t have "\<forall>i j. i < j \<and> j < length ?rows \<longrightarrow> rankedBefore (?rows ! i) (?rows ! j)"
    by (elim conjE)
  then have "1 < (2::nat) \<and> 2 < length ?rows \<longrightarrow> rankedBefore (?rows ! 1) (?rows ! 2)"
    by (elim allE)
  then have r: "rankedBefore (?rows ! 1) (?rows ! 2)"
    by simp
  from t have l: "length ?rows = min (nat 3) (length (filter trendingMatch (activities exampleDb)))"
    by (elim conjE)
  have f: "map row_id ?rows = [12, 13, 11]" "map engagementScore ?rows = [6, 5, 5]"
    "map row_createdAt ?rows = [1704100000000, 1704300000000, 1704200000000]"
    by (simp_all add: projectRow_fields e c i)
  from run f r l show ?thesis by (intro exI [of _ ?rows] conjI)
qed

section \<open>Properties of friend requests\<close>

lemma findUserById_saveUser_same:
  "findUserById (user_id u) d = Some v \<Longrightarrow> findUserById (user_id u) (saveUser u d) = Some u"
  by (simp add: findUserById_def saveUser_def find_updateFirst_hit)

lemma findUserById_saveUser_other:
  "i \<noteq> user_id u \<Longrightarrow> findUserById i (saveUser u d) = findUserById i d"
  unfolding findUserById_def saveUser_def
  by (simp, intro find_updateFirst_miss) simp_all

lemma findUserById_id: "findUserById i d = Some u \<Longrightarrow> user_id u = i"
  by (auto simp: findUserById_def dest: find_Some_holds)

lemma user_id_acceptEntry [simp]: "user_id (acceptEntry b u) = user_id u"
  by (simp add: acceptEntry_def)

lemma user_id_pushFriend [simp]: "user_id (pushFriend b t u) = user_id u"
  by (simp add: pushFriend_def)

lemma acceptEntry_status:
  "find (\<lambda>f. friend_userId f = b) (friends u) = Some e \<Longrightarrow>
     map_option friend_status (find (\<lambda>f. friend_userId f = b) (friends (acceptEntry b u)))
       = Some Accepted"
proof -
  assume e: "find (\<lambda>f. friend_userId f = b) (friends u) = Some e"
  then have "friend_userId e = b" by (auto dest: find_Some_holds)
  with e have "find (\<lambda>f. friend_userId f = b)
                 (updateFirst (\<lambda>f. friend_userId f = b) (\<lambda>f. f\<lparr>friend_status := Accepted\<rparr>)
                    (friends u)) = Some (e\<lparr>friend_status := Accepted\<rparr>)"
    by (intro find_updateFirst_hit) simp_all
  then show ?thesis by (simp add: acceptEntry_def)
qed

lemma two_saves:
  assumes "findUserById a d = Some cur" "findUserById b d = Some tgt"
    and "user_id cur' = a" "user_id tgt' = b" "a = b \<Longrightarrow> cur' = tgt'"
  shows "findUserById a (saveUser tgt' (saveUser cur' d)) = Some cur' \<and>
         findUserById b (saveUser tgt' (saveUser cur' d)) = Some tgt'"
proof -
  have c1: "findUserById a (saveUser cur' d) = Some cur'"
    using assms(1,3) findUserById_saveUser_same [of cur' d cur] by simp
  show ?thesis
  proof (cases "a = b")
    case True
    with assms(5) have eq: "cur' = tgt'" by simp
    from c1 have "findUserById (user_id tgt') (saveUser tgt' (saveUser cur' d)) = Some tgt'"
      using assms(3,4) True eq findUserById_saveUser_same [of tgt' "saveUser cur' d" cur'] by simp
    with True eq assms(4) show ?thesis by simp
  next
    case False
    have "findUserById b (saveUser cur' d) = Some tgt"
      using False assms(2,3) findUserById_saveUser_other [of b cur' d] by simp
    then have "findUserById b (saveUser tgt' (saveUser cur' d)) = Some tgt'"
      using assms(4) findUserById_saveUser_same [of tgt' "saveUser cur' d" tgt] by simp
    moreover have "findUserById a (saveUser tgt' (saveUser cur' d)) = Some cur'"
      using False assms(4) c1 findUserById_saveUser_other [of a tgt' "saveUser cur' d"] by simp
    ultimately show ?thesis by simp
  qed
qed

text \<open>
  C5. Accepting a friend request flips both sides. When the current user's list has an entry
  for the other user and the other user's list has an entry for the current user (the pending
  request), the accept operation succeeds, writes the current user's document and then the
  other user's, and afterwards each of the two lists reports \<open>accepted\<close> for the other
  user.
\<close>

theorem C5_accept_flips_both_sides:
  assumes "findUserById (user_id reqUser) d = Some cur"
    and "findUserById b d = Some tgt"
    and "find (\<lambda>f. friend_userId f = b) (friends cur) = Some e1"
    and "find (\<lambda>f. friend_userId f = user_id reqUser) (friends tgt) = Some e2"
  shows "acceptFriendRequest reqUser (Some b) d =
           (reply 200 ''Friend request accepted'',
            saveUser (acceptEntry (user_id reqUser) tgt) (saveUser (acceptEntry b cur) d)) \<and>
         friendStatusOf (user_id reqUser) b (snd (acceptFriendRequest reqUser (Some b) d))
           = Some Accepted \<and>
         friendStatusOf b (user_id reqUser) (snd (acceptFriendRequest reqUser (Some b) d))
           = Some Accepted"
proof -
  let ?a = "user_id reqUser"
  let ?cur' = "acceptEntry b cur" and ?tgt' = "acceptEntry ?a tgt"
  let ?d' = "saveUser ?tgt' (saveUser ?cur' d)"
  have run: "acceptFriendRequest reqUser (Some b) d = (reply 200 ''Friend request accepted'', ?d')"
    using assms by (simp add: acceptFriendRequest_def)
  have ids: "user_id cur = ?a" "user_id tgt = b"
    using assms(1,2) by (simp_all add: findUserById_id)
  have same: "?cur' = ?tgt'" if "?a = b"
    using that assms(1,2) by simp
  from two_saves [OF assms(1,2), of ?cur' ?tgt'] ids same
  have found: "findUserById ?a ?d' = Some ?cur'" "findUserById b ?d' = Some ?tgt'"
    by simp_all
  have "friendStatusOf ?a b ?d' = Some Accepted"
    using found(1) acceptEntry_status [OF assms(3)] by (simp add: friendStatusOf_def)
  moreover have "friendStatusOf b ?a ?d' = Some Accepted"
    using found(2) acceptEntry_status [OF assms(4)] by (simp add: friendStatusOf_def)
  ultimately show ?thesis using run by simp
qed

theorem C5_accept_flips_both_sides_witness:
  "friendStatusOf 1 2 pendingDb = Some Pending \<and>
   friendStatusOf 2 1 pendingDb = Some Pending \<and>
   fst (acceptFriendRequest anaPending (Some 2) pendingDb) = reply 200 ''Friend request accepted'' \<and>
   friendStatusOf 1 2 (snd (acceptFriendRequest anaPending (Some 2) pendingDb)) = Some Accepted \<and>
   friendStatusOf 2 1 (snd (acceptFriendRequest anaPending (Some 2) pendingDb)) = Some Accepted"
proof -
  have ids: "user_id anaPending = 1" "user_id bobPending = 2"
    by (simp_all add: anaPending_def bobPending_def ana_def bob_def)
  have us: "users pendingDb = [anaPending, bobPending]"
    by (simp add: pendingDb_def)
  have h1: "findUserById (user_id anaPending) pendingDb = Some anaPending"
    by (simp add: findUserById_def us)
  have h2: "findUserById 2 pendingDb = Some bobPending"
    by (simp add: findUserById_def us ids)
  have h3: "find (\<lambda>f. friend_userId f = 2) (friends anaPending) = Some (friendOf 2 Pending)"
    by (simp add: anaPending_def friendOf_def)
  have h4: "find (\<lambda>f. friend_userId f = user_id anaPending) (friends bobPending)
      = Some (friendOf 1 Pending)"
    by (simp add: ids) (simp add: bobPending_def friendOf_def)
  note t = C5_accept_flips_both_sides [OF h1 h2 h3 h4]
  from t have r: "fst (acceptFriendRequest anaPending (Some 2) pendingDb)
      = reply 200 ''Friend request accepted''"
    by (elim conjE) (simp only: fst_conv)
  have a: "friendStatusOf 1 2 (snd (acceptFriendRequest anaPending (Some 2) pendingDb))
      = Some Accepted"
    "friendStatusOf 2 1 (snd (acceptFriendRequest anaPending (Some 2) pendingDb)) = Some Accepted"
    using t [THEN conjunct2, THEN conjunct1] t [THEN conjunct2, THEN conjunct2]
    by (simp_all only: ids)
  have b: "friendStatusOf 1 2 pendingDb = Some Pending" "friendStatusOf 2 1 pendingDb = Some Pending"
    using h1 h2 h3 h4 by (simp_all add: friendStatusOf_def ids friendOf_def)
  from b r a show ?thesis by (intro conjI)
qed

lemma writeFriendRequest_others:
  "user_id tgt \<noteq> user_id cur \<Longrightarrow>
     writeFriendRequest stale now cur tgt d =
       (reply 200 ''Friend request sent successfully'',
        saveUser (pushFriend (user_id cur) now tgt)
          (saveUser (pushFriend (user_id tgt) now cur) d))"
  by (simp add: writeFriendRequest_def Let_def)

lemma sendFriendRequest_known:
  assumes "name \<noteq> []" "name \<noteq> username reqUser"
    and "findUserByName name d = Some tgt"
    and "findUserById (user_id reqUser) d = Some cur"
    and "find (\<lambda>f. friend_userId f = user_id tgt) (friends cur) = Some e"
    and "friend_status e = Pending \<or> friend_status e = Accepted"
  shows "sendFriendRequest stale now reqUser (Some name) d =
           (reply 400 (if friend_status e = Accepted then ''Already friends''
                       else ''Friend request already sent''), d)"
  using assms by (auto simp: sendFriendRequest_def)

lemma sendFriendRequest_new:
  assumes "name \<noteq> []" "name \<noteq> username reqUser"
    and "findUserByName name d = Some tgt"
    and "findUserById (user_id reqUser) d = Some cur"
    and "find (\<lambda>f. friend_userId f = user_id tgt) (friends cur) = None"
    and "user_id tgt \<noteq> user_id cur"
  shows "sendFriendRequest stale now reqUser (Some name) d =
           (reply 200 ''Friend request sent successfully'',
            saveUser (pushFriend (user_id cur) now tgt)
              (saveUser (pushFriend (user_id tgt) now cur) d))"
  using assms by (simp add: sendFriendRequest_def writeFriendRequest_others)

text \<open>A padded own name passes the comparison with the sender's username and finds the
  sender's own document: ana sends a request to \<open>"ana "\<close>. The first save writes an entry
  for herself to her list; the second save, from the stale copy, either fails, and the
  answer is 500, or adds a second such entry.\<close>

lemma sendFriendRequest_padded_own_name:
  "sendFriendRequest StaleRejected 1704160000000 ana (Some ''ana '') exampleDb =
     (reply 500 ''Error sending friend request'',
      exampleDb\<lparr>users := [pushFriend 1 1704160000000 ana, bob]\<rparr>) \<and>
   sendFriendRequest StaleApplied 1704160000000 ana (Some ''ana '') exampleDb =
     (reply 200 ''Friend request sent successfully'',
      exampleDb\<lparr>users :=
        [pushFriend 1 1704160000000 (pushFriend 1 1704160000000 ana), bob]\<rparr>)"
proof -
  have tr: "trim ''ana '' = ''ana''" by (simp add: trim_def isWhiteSpace_def)
  have us: "users exampleDb = [ana, bob]" by (simp add: exampleDb_def)
  have a: "user_id ana = 1" "username ana = ''ana''" "friends ana = []"
    by (simp_all add: ana_def)
  have b: "user_id bob = 2" by (simp add: bob_def)
  have p: "user_id (pushFriend 1 1704160000000 ana) = 1"
    by (simp add: a)
  show ?thesis
    by (simp add: sendFriendRequest_def findUserByName_def findUserById_def tr us a b p
        writeFriendRequest_def Let_def saveUser_def)
qed

text \<open>
  C8, as the code has it. The request names a user by a non-empty name that is not the
  sender's own username as sent; the name, trimmed, is the username of a stored user, the
  recipient. When the first entry for the recipient in the sender's own list, the entry the
  route's \<open>find\<close> returns, has status \<open>pending\<close> or \<open>accepted\<close>, the request gets a 400 response
  and changes nothing. When the sender's list has no entry for the recipient, and the
  recipient is another user of a database with unique user ids, the request succeeds and
  appends a \<open>pending\<close> entry for the other user to the sender's list and to the
  recipient's.
\<close>

theorem C8_friend_request:
  assumes "name \<noteq> []" "name \<noteq> username reqUser"
    and "findUserByName name d = Some tgt"
    and "findUserById (user_id reqUser) d = Some cur"
  shows "(\<forall>e. find (\<lambda>f. friend_userId f = user_id tgt) (friends cur) = Some e \<and>
              (friend_status e = Pending \<or> friend_status e = Accepted) \<longrightarrow>
            status (fst (sendFriendRequest stale now reqUser (Some name) d)) = 400 \<and>
            snd (sendFriendRequest stale now reqUser (Some name) d) = d) \<and>
         (find (\<lambda>f. friend_userId f = user_id tgt) (friends cur) = None \<and>
          distinct (map user_id (users d)) \<and> user_id tgt \<noteq> user_id reqUser \<longrightarrow>
            fst (sendFriendRequest stale now reqUser (Some name) d)
              = reply 200 ''Friend request sent successfully'' \<and>
            map_option friends
              (findUserById (user_id reqUser)
                 (snd (sendFriendRequest stale now reqUser (Some name) d)))
              = Some (friends cur @
                  [\<lparr>friend_userId = user_id tgt, friend_status = Pending, addedAt = now\<rparr>]) \<and>
            map_option friends
              (findUserById (user_id tgt)
                 (snd (sendFriendRequest stale now reqUser (Some name) d)))
              = Some (friends tgt @
                  [\<lparr>friend_userId = user_id reqUser, friend_status = Pending, addedAt = now\<rparr>]))"
proof (intro conjI allI impI)
  fix e
  assume e: "find (\<lambda>f. friend_userId f = user_id tgt) (friends cur) = Some e \<and>
          (friend_status e = Pending \<or> friend_status e = Accepted)"
  then have e1: "find (\<lambda>f. friend_userId f = user_id tgt) (friends cur) = Some e"
    and e2: "friend_status e = Pending \<or> friend_status e = Accepted"
    by (rule conjunct1, rule conjunct2)
  have "sendFriendRequest stale now reqUser (Some name) d =
           (reply 400 (if friend_status e = Accepted then ''Already friends''
                       else ''Friend request already sent''), d)"
    by (rule sendFriendRequest_known [OF assms e1 e2])
  then show "status (fst (sendFriendRequest stale now reqUser (Some name) d)) = 400"
    and "snd (sendFriendRequest stale now reqUser (Some name) d) = d"
    by (simp_all add: reply_def)
next
  assume h: "find (\<lambda>f. friend_userId f = user_id tgt) (friends cur) = None \<and>
          distinct (map user_id (users d)) \<and> user_id tgt \<noteq> user_id reqUser"
  let ?a = "user_id reqUser" and ?b = "user_id tgt"
  let ?cur' = "pushFriend ?b now cur" and ?tgt' = "pushFriend (user_id cur) now tgt"
  have ida: "user_id cur = ?a" using assms(4) by (rule findUserById_id)
  from h have h1: "find (\<lambda>f. friend_userId f = user_id tgt) (friends cur) = None"
    and h3: "user_id tgt \<noteq> user_id cur"
    by (simp_all add: ida)
  have "sendFriendRequest stale now reqUser (Some name) d =
      (reply 200 ''Friend request sent successfully'', saveUser ?tgt' (saveUser ?cur' d))"
    by (rule sendFriendRequest_new [OF assms h1 h3])
  then have run: "sendFriendRequest stale now reqUser (Some name) d =
      (reply 200 ''Friend request sent successfully'', saveUser ?tgt' (saveUser ?cur' d))" .
  from assms(3) have "tgt \<in> set (users d)"
    by (auto simp: findUserByName_def dest: find_Some_holds)
  with h find_by_unique_key [of user_id "users d" tgt "\<lambda>_. True"]
  have tg: "findUserById ?b d = Some tgt"
    by (simp add: findUserById_def)
  from h have ne: "?a \<noteq> ?b" by auto
  from two_saves [OF assms(4) tg, of ?cur' ?tgt'] ida ne
  have found: "findUserById ?a (saveUser ?tgt' (saveUser ?cur' d)) = Some ?cur'"
    "findUserById ?b (saveUser ?tgt' (saveUser ?cur' d)) = Some ?tgt'"
    by simp_all
  show "fst (sendFriendRequest stale now reqUser (Some name) d)
              = reply 200 ''Friend request sent successfully''"
    by (simp add: run)
  show "map_option friends
          (findUserById ?a (snd (sendFriendRequest stale now reqUser (Some name) d)))
        = Some (friends cur @
                  [\<lparr>friend_userId = ?b, friend_status = Pending, addedAt = now\<rparr>])"
    using found(1) by (simp add: run pushFriend_def)
  show "map_option friends
          (findUserById ?b (snd (sendFriendRequest stale now reqUser (Some name) d)))
        = Some (friends tgt @
                  [\<lparr>friend_userId = ?a, friend_status = Pending, addedAt = now\<rparr>])"
    using found(2) by (simp add: run pushFriend_def ida)
qed

theorem C8_friend_request_witness:
  "status (fst (sendFriendRequest StaleRejected 1704160000000 anaPending (Some '' bob'') pendingDb))
     = 400 \<and>
   snd (sendFriendRequest StaleRejected 1704160000000 anaPending (Some '' bob'') pendingDb)
     = pendingDb \<and>
   fst (sendFriendRequest StaleRejected 1704160000000 ana (Some ''bob '') exampleDb)
     = reply 200 ''Friend request sent successfully'' \<and>
   map_option friends
     (findUserById 1
        (snd (sendFriendRequest StaleRejected 1704160000000 ana (Some ''bob '') exampleDb)))
     = Some [\<lparr>friend_userId = 2, friend_status = Pending, addedAt = 1704160000000\<rparr>] \<and>
   map_option friends
     (findUserById 2
        (snd (sendFriendRequest StaleRejected 1704160000000 ana (Some ''bob '') exampleDb)))
     = Some [\<lparr>friend_userId = 1, friend_status = Pending, addedAt = 1704160000000\<rparr>]"
proof -
  have ids: "user_id anaPending = 1" "user_id bobPending = 2" "user_id ana = 1" "user_id bob = 2"
    by (simp_all add: anaPending_def bobPending_def ana_def bob_def)
  have names: "username anaPending = ''ana''" "username bobPending = ''bob''"
    "username ana = ''ana''" "username bob = ''bob''"
    by (simp_all add: anaPending_def bobPending_def ana_def bob_def)
  have fr: "friends ana = []" "friends bob = []"
    by (simp_all add: ana_def bob_def)
  have tr: "trim '' bob'' = ''bob''" "trim ''bob '' = ''bob''"
    by (simp_all add: trim_def isWhiteSpace_def)
  have n1: "'' bob'' \<noteq> []" "''bob '' \<noteq> []" by simp_all
  have n2: "'' bob'' \<noteq> username anaPending" "''bob '' \<noteq> username ana"
    by (simp_all add: names)
  have us: "users pendingDb = [anaPending, bobPending]" "users exampleDb = [ana, bob]"
    by (simp_all add: pendingDb_def exampleDb_def)
  have p3: "findUserByName '' bob'' pendingDb = Some bobPending"
    by (simp add: findUserByName_def tr us names)
  have p4: "findUserById (user_id anaPending) pendingDb = Some anaPending"
    by (simp add: findUserById_def us)
  have p5: "find (\<lambda>f. friend_userId f = user_id bobPending) (friends anaPending)
      = Some (friendOf 2 Pending) \<and>
      (friend_status (friendOf 2 Pending) = Pending \<or> friend_status (friendOf 2 Pending) = Accepted)"
    by (simp add: ids) (simp add: anaPending_def friendOf_def)
  note t1 = C8_friend_request [OF n1(1) n2(1) p3 p4,
      where stale = StaleRejected and now = 1704160000000, THEN conjunct1, rule_format, OF p5]
  have e3: "findUserByName ''bob '' exampleDb = Some bob"
    by (simp add: findUserByName_def tr us names)
  have e4: "findUserById (user_id ana) exampleDb = Some ana"
    by (simp add: findUserById_def us)
  have e5: "find (\<lambda>f. friend_userId f = user_id bob) (friends ana) = None \<and>
          distinct (map user_id (users exampleDb)) \<and> user_id bob \<noteq> user_id ana"
    by (simp add: us ids fr)
  note t2 = C8_friend_request [OF n1(2) n2(2) e3 e4,
      where stale = StaleRejected and now = 1704160000000, THEN conjunct2, rule_format, OF e5]
  from t2 have s: "fst (sendFriendRequest StaleRejected 1704160000000 ana (Some ''bob '') exampleDb)
     = reply 200 ''Friend request sent successfully''"
    "map_option friends
     (findUserById 1
        (snd (sendFriendRequest StaleRejected 1704160000000 ana (Some ''bob '') exampleDb)))
     = Some [\<lparr>friend_userId = 2, friend_status = Pending, addedAt = 1704160000000\<rparr>]"
    "map_option friends
     (findUserById 2
        (snd (sendFriendRequest StaleRejected 1704160000000 ana (Some ''bob '') exampleDb)))
     = Some [\<lparr>friend_userId = 1, friend_status = Pending, addedAt = 1704160000000\<rparr>]"
    by (simp_all add: ids fr)
  from t1 s show ?thesis by (intro conjI) simp_all
qed

text \<open>An entry of status \<open>blocked\<close> does not stop a request: with such an entry for bob in
  her list, ana's request to bob succeeds and adds a second entry for bob to her list and an
  entry for her to his. Her list then has a \<open>pending\<close> entry for bob behind the \<open>blocked\<close>
  one, and a further request succeeds again and adds a third entry.\<close>

theorem C8_blocked_entry_counterexample:
  "friendStatusOf 1 2 blockedDb = Some Blocked \<and>
   sendFriendRequest StaleRejected 1704160000000 anaBlocked (Some ''bob'') blockedDb
     = (reply 200 ''Friend request sent successfully'', blockedRequestedDb) \<and>
   friends anaBlockedRequested
     = [friendOf 2 Blocked,
        \<lparr>friend_userId = 2, friend_status = Pending, addedAt = 1704160000000\<rparr>] \<and>
   friends bobRequested
     = [\<lparr>friend_userId = 1, friend_status = Pending, addedAt = 1704160000000\<rparr>] \<and>
   fst (sendFriendRequest StaleRejected 1704170000000 anaBlockedRequested (Some ''bob'')
          blockedRequestedDb)
     = reply 200 ''Friend request sent successfully'' \<and>
   map_option friends
     (findUserById 1
        (snd (sendFriendRequest StaleRejected 1704170000000 anaBlockedRequested (Some ''bob'')
                blockedRequestedDb)))
     = Some [friendOf 2 Blocked,
             \<lparr>friend_userId = 2, friend_status = Pending, addedAt = 1704160000000\<rparr>,
             \<lparr>friend_userId = 2, friend_status = Pending, addedAt = 1704170000000\<rparr>]"
proof -
  have tr: "trim ''bob'' = ''bob''" by (simp add: trim_def isWhiteSpace_def)
  have us: "users blockedDb = [anaBlocked, bob]"
    "users blockedRequestedDb = [anaBlockedRequested, bobRequested]"
    by (simp_all add: blockedDb_def blockedRequestedDb_def)
  have a: "user_id anaBlocked = 1" "username anaBlocked = ''ana''"
    "friends anaBlocked = [friendOf 2 Blocked]"
    by (simp_all add: anaBlocked_def ana_def)
  have b: "user_id bob = 2" "username bob = ''bob''" "friends bob = []"
    by (simp_all add: bob_def)
  have a2: "user_id anaBlockedRequested = 1" "username anaBlockedRequested = ''ana''"
    "friends anaBlockedRequested = [friendOf 2 Blocked,
        \<lparr>friend_userId = 2, friend_status = Pending, addedAt = 1704160000000\<rparr>]"
    by (simp_all add: anaBlockedRequested_def pushFriend_def a)
  have b2: "user_id bobRequested = 2" "username bobRequested = ''bob''"
    "friends bobRequested
       = [\<lparr>friend_userId = 1, friend_status = Pending, addedAt = 1704160000000\<rparr>]"
    by (simp_all add: bobRequested_def pushFriend_def b)
  have f: "friend_userId (friendOf 2 Blocked) = 2" "friend_status (friendOf 2 Blocked) = Blocked"
    by (simp_all add: friendOf_def)
  have st: "friendStatusOf 1 2 blockedDb = Some Blocked"
    by (simp add: friendStatusOf_def findUserById_def us a f)
  have w1: "writeFriendRequest StaleRejected 1704160000000 anaBlocked bob blockedDb
      = (reply 200 ''Friend request sent successfully'', blockedRequestedDb)"
    by (simp add: writeFriendRequest_def Let_def a b saveUser_def us blockedDb_def
        blockedRequestedDb_def anaBlockedRequested_def bobRequested_def)
  have run1: "sendFriendRequest StaleRejected 1704160000000 anaBlocked (Some ''bob'') blockedDb
     = (reply 200 ''Friend request sent successfully'', blockedRequestedDb)"
    by (simp add: sendFriendRequest_def findUserByName_def findUserById_def tr us a b f w1)
  have run2: "sendFriendRequest StaleRejected 1704170000000 anaBlockedRequested (Some ''bob'')
          blockedRequestedDb
     = (reply 200 ''Friend request sent successfully'',
        saveUser (pushFriend 1 1704170000000 bobRequested)
          (saveUser (pushFriend 2 1704170000000 anaBlockedRequested) blockedRequestedDb))"
    by (simp add: sendFriendRequest_def findUserByName_def findUserById_def tr us a2 b2 f
        writeFriendRequest_def Let_def)
  have u2: "users (saveUser (pushFriend 1 1704170000000 bobRequested)
          (saveUser (pushFriend 2 1704170000000 anaBlockedRequested) blockedRequestedDb))
      = [pushFriend 2 1704170000000 anaBlockedRequested, pushFriend 1 1704170000000 bobRequested]"
    by (simp add: saveUser_def us a2 b2)
  have third: "map_option friends
     (findUserById 1
        (snd (sendFriendRequest StaleRejected 1704170000000 anaBlockedRequested (Some ''bob'')
                blockedRequestedDb)))
     = Some [friendOf 2 Blocked,
             \<lparr>friend_userId = 2, friend_status = Pending, addedAt = 1704160000000\<rparr>,
             \<lparr>friend_userId = 2, friend_status = Pending, addedAt = 1704170000000\<rparr>]"
    using u2 by (simp add: run2 findUserById_def a2 b2 pushFriend_def)
  have second: "fst (sendFriendRequest StaleRejected 1704170000000 anaBlockedRequested
      (Some ''bob'') blockedRequestedDb) = reply 200 ''Friend request sent successfully''"
    by (simp add: run2)
  from st run1 a2(3) b2(3) second third show ?thesis by (intro conjI)
qed

section \<open>Properties of group membership\<close>

lemma nonMember_find:
  "(\<forall>m\<in>set ms. member_userId m = uid \<longrightarrow> \<not> member_isActive m) \<Longrightarrow>
     find (\<lambda>m. member_userId m = uid \<and> member_isActive m) ms = None"
  by (auto simp: find_None_iff)

lemma addMember_joins:
  assumes "\<forall>m\<in>set (members g). member_userId m = uid \<longrightarrow> \<not> member_isActive m"
  shows "activeMemberCount (addMember now uid role g) = Suc (activeMemberCount g) \<and>
         (\<exists>m\<in>set (members (addMember now uid role g)). member_userId m = uid \<and> member_isActive m) \<and>
         filter (\<lambda>m. member_userId m \<noteq> uid) (members (addMember now uid role g))
           = filter (\<lambda>m. member_userId m \<noteq> uid) (members g) \<and>
         group_id (addMember now uid role g) = group_id g \<and>
         maxMembers (addMember now uid role g) = maxMembers g"
proof (cases "find (\<lambda>m. member_userId m = uid) (members g)")
  case None
  then show ?thesis
    by (simp add: addMember_def activeMemberCount_def)
next
  case (Some m)
  then have m: "member_userId m = uid" "m \<in> set (members g)"
    by (auto dest: find_Some_holds)
  with assms have inactive: "\<not> member_isActive m" by blast
  let ?f = "\<lambda>m. m\<lparr>member_isActive := True, member_joinedAt := now\<rparr>"
  let ?ms = "updateFirst (\<lambda>m. member_userId m = uid) ?f (members g)"
  have g': "addMember now uid role g = g\<lparr>members := ?ms\<rparr>"
    using Some inactive by (simp add: addMember_def)
  have "length (filter member_isActive ?ms) = Suc (length (filter member_isActive (members g)))"
    using Some inactive by (intro count_updateFirst_activate) simp_all
  moreover have "?f m \<in> set ?ms"
    using Some by (rule set_updateFirst_hit)
  then have "\<exists>x\<in>set ?ms. member_userId x = uid \<and> member_isActive x"
    using m(1) by (intro bexI [of _ "?f m"]) simp_all
  moreover have "filter (\<lambda>m. member_userId m \<noteq> uid) ?ms
      = filter (\<lambda>m. member_userId m \<noteq> uid) (members g)"
    by (intro filter_others_updateFirst) simp
  ultimately show ?thesis
    by (simp add: g' activeMemberCount_def)
qed

lemma findGroupById_id: "findGroupById i d = Some g \<Longrightarrow> group_id g = i"
  by (auto simp: findGroupById_def dest: find_Some_holds)

lemma findGroupById_saveGroup:
  "findGroupById (group_id g') d = Some g \<Longrightarrow> findGroupById (group_id g') (saveGroup g' d) = Some g'"
  by (simp add: findGroupById_def saveGroup_def find_updateFirst_hit)

lemma findGroupById_saveUser [simp]: "findGroupById i (saveUser u d) = findGroupById i d"
  by (simp add: findGroupById_def saveUser_def)

lemma findUserById_saveGroup [simp]: "findUserById i (saveGroup g d) = findUserById i d"
  by (simp add: findUserById_def saveGroup_def)

lemma saveGroup_same: "findGroupById i d = Some g \<Longrightarrow> saveGroup g d = d"
proof -
  assume f: "findGroupById i d = Some g"
  then have "group_id g = i" by (rule findGroupById_id)
  with f have "updateFirst (\<lambda>x. group_id x = group_id g) (\<lambda>_. g) (groups d) = groups d"
    by (intro updateFirst_same) (simp add: findGroupById_def)
  then show ?thesis by (simp add: saveGroup_def)
qed

text \<open>
  C6. Joining a group. For an active group that is not private and a requester with no active
  membership entry: when the number of active members equals \<open>maxMembers\<close> the join is
  rejected with a 400 response and nothing changes; when it equals \<open>maxMembers - 1\<close> (and the
  requester's user document exists) the join succeeds, the requester has an active entry in
  the stored group (appended or reactivated), the number of active members has grown by one
  to \<open>maxMembers\<close>, and the entries of the other users are as before. A private group
  rejects the join and nothing changes.
\<close>

theorem C6_join_group:
  assumes "findGroupById gid d = Some g"
  shows "(group_isActive g \<and> group_privacy g \<noteq> Private \<and>
          (\<forall>m\<in>set (members g). member_userId m = user_id reqUser \<longrightarrow> \<not> member_isActive m) \<and>
          int (activeMemberCount g) = maxMembers g \<longrightarrow>
            joinGroup now reqUser gid d
              = (reply 400 ''Group has reached maximum member limit'', d)) \<and>
         (group_isActive g \<and> group_privacy g \<noteq> Private \<and>
          (\<forall>m\<in>set (members g). member_userId m = user_id reqUser \<longrightarrow> \<not> member_isActive m) \<and>
          int (activeMemberCount g) = maxMembers g - 1 \<and>
          findUserById (user_id reqUser) d = Some u \<longrightarrow>
            fst (joinGroup now reqUser gid d) = reply 200 ''Successfully joined group'' \<and>
            (\<exists>g'. findGroupById gid (snd (joinGroup now reqUser gid d)) = Some g' \<and>
                  (\<exists>m\<in>set (members g'). member_userId m = user_id reqUser \<and> member_isActive m) \<and>
                  activeMemberCount g' = Suc (activeMemberCount g) \<and>
                  int (activeMemberCount g') = maxMembers g' \<and>
                  filter (\<lambda>m. member_userId m \<noteq> user_id reqUser) (members g')
                    = filter (\<lambda>m. member_userId m \<noteq> user_id reqUser) (members g))) \<and>
         (group_privacy g = Private \<longrightarrow>
            joinGroup now reqUser gid d =
              (if group_isActive g then reply 403 ''Cannot join private group without invitation''
               else reply 404 ''Group not found'', d))"
proof (intro conjI impI)
  assume "group_isActive g \<and> group_privacy g \<noteq> Private \<and>
          (\<forall>m\<in>set (members g). member_userId m = user_id reqUser \<longrightarrow> \<not> member_isActive m) \<and>
          int (activeMemberCount g) = maxMembers g"
  then show "joinGroup now reqUser gid d
              = (reply 400 ''Group has reached maximum member limit'', d)"
    using assms nonMember_find [of "members g" "user_id reqUser"]
    by (simp add: joinGroup_def)
next
  assume "group_privacy g = Private"
  then show "joinGroup now reqUser gid d =
              (if group_isActive g then reply 403 ''Cannot join private group without invitation''
               else reply 404 ''Group not found'', d)"
    using assms by (simp add: joinGroup_def)
next
  assume h: "group_isActive g \<and> group_privacy g \<noteq> Private \<and>
          (\<forall>m\<in>set (members g). member_userId m = user_id reqUser \<longrightarrow> \<not> member_isActive m) \<and>
          int (activeMemberCount g) = maxMembers g - 1 \<and>
          findUserById (user_id reqUser) d = Some u"
  let ?g' = "addMember now (user_id reqUser) Member g"
  let ?d' = "saveUser (pushUserGroup (group_id g) now u) (saveGroup ?g' d)"
  from h have non: "\<forall>m\<in>set (members g). member_userId m = user_id reqUser \<longrightarrow> \<not> member_isActive m"
    by blast
  note j = addMember_joins [OF non, of now Member]
  have gid: "group_id g = gid" using assms by (rule findGroupById_id)
  have run: "joinGroup now reqUser gid d = (reply 200 ''Successfully joined group'', ?d')"
    using assms h nonMember_find [OF non]
    by (simp add: joinGroup_def)
  have "findGroupById (group_id ?g') (saveGroup ?g' d) = Some ?g'"
    using assms j gid by (intro findGroupById_saveGroup [of _ _ g]) simp
  then have found: "findGroupById gid ?d' = Some ?g'"
    using j gid by simp
  show "fst (joinGroup now reqUser gid d) = reply 200 ''Successfully joined group''"
    by (simp add: run)
  have "(\<exists>m\<in>set (members ?g'). member_userId m = user_id reqUser \<and> member_isActive m) \<and>
        activeMemberCount ?g' = Suc (activeMemberCount g) \<and>
        int (activeMemberCount ?g') = maxMembers ?g' \<and>
        filter (\<lambda>m. member_userId m \<noteq> user_id reqUser) (members ?g')
          = filter (\<lambda>m. member_userId m \<noteq> user_id reqUser) (members g)"
    using j h by simp
  with found show "\<exists>g'. findGroupById gid (snd (joinGroup now reqUser gid d)) = Some g' \<and>
                  (\<exists>m\<in>set (members g'). member_userId m = user_id reqUser \<and> member_isActive m) \<and>
                  activeMemberCount g' = Suc (activeMemberCount g) \<and>
                  int (activeMemberCount g') = maxMembers g' \<and>
                  filter (\<lambda>m. member_userId m \<noteq> user_id reqUser) (members g')
                    = filter (\<lambda>m. member_userId m \<noteq> user_id reqUser) (members g)"
    unfolding run snd_conv by (intro exI [of _ ?g']) simp
qed

theorem C6_join_group_witness:
  "joinGroup 1704160000000 bob 21 exampleDb
     = (reply 400 ''Group has reached maximum member limit'', exampleDb) \<and>
   int (activeMemberCount circle) = maxMembers circle - 1 \<and>
   fst (joinGroup 1704160000000 bob 20 exampleDb) = reply 200 ''Successfully joined group'' \<and>
   map_option activeMemberCount
     (findGroupById 20 (snd (joinGroup 1704160000000 bob 20 exampleDb))) = Some 2 \<and>
   joinGroup 1704160000000 bob 22 exampleDb
     = (reply 403 ''Cannot join private group without invitation'', exampleDb)"
proof -
  have gs: "groups exampleDb = [circle, duo, secret]" "users exampleDb = [ana, bob]"
    by (simp_all add: exampleDb_def)
  have ids: "group_id circle = 20" "group_id duo = 21" "group_id secret = 22"
    by (simp_all add: circle_def duo_def secret_def)
  have b: "user_id bob = 2" "user_id ana = 1" by (simp_all add: bob_def ana_def)
  have f20: "findGroupById 20 exampleDb = Some circle"
    and f21: "findGroupById 21 exampleDb = Some duo"
    and f22: "findGroupById 22 exampleDb = Some secret"
    by (simp_all add: findGroupById_def gs ids)
  have full: "group_isActive duo \<and> group_privacy duo \<noteq> Private \<and>
      (\<forall>m\<in>set (members duo). member_userId m = user_id bob \<longrightarrow> \<not> member_isActive m) \<and>
      int (activeMemberCount duo) = maxMembers duo"
    by (simp add: duo_def activeMemberCount_def b)
  have room: "group_isActive circle \<and> group_privacy circle \<noteq> Private \<and>
      (\<forall>m\<in>set (members circle). member_userId m = user_id bob \<longrightarrow> \<not> member_isActive m) \<and>
      int (activeMemberCount circle) = maxMembers circle - 1 \<and>
      findUserById (user_id bob) exampleDb = Some bob"
    by (simp add: circle_def activeMemberCount_def b findUserById_def gs)
  have priv: "group_privacy secret = Private" "group_isActive secret"
    by (simp_all add: secret_def)
  have count: "activeMemberCount circle = 1"
    by (simp add: circle_def activeMemberCount_def)
  note t1 = C6_join_group [OF f21, where reqUser = bob and now = 1704160000000,
      THEN conjunct1, rule_format, OF full]
  note t2 = C6_join_group [OF f20, where reqUser = bob and now = 1704160000000 and u = bob,
      THEN conjunct2, THEN conjunct1, rule_format, OF room]
  note t3 = C6_join_group [OF f22, where reqUser = bob and now = 1704160000000,
      THEN conjunct2, THEN conjunct2, rule_format, OF priv(1)]
  from t2 obtain g' where g':
    "findGroupById 20 (snd (joinGroup 1704160000000 bob 20 exampleDb)) = Some g'"
    "activeMemberCount g' = Suc (activeMemberCount circle)"
    by blast
  then have c: "map_option activeMemberCount
     (findGroupById 20 (snd (joinGroup 1704160000000 bob 20 exampleDb))) = Some 2"
    by (simp add: count)
  from t3 priv(2) have p: "joinGroup 1704160000000 bob 22 exampleDb
     = (reply 403 ''Cannot join private group without invitation'', exampleDb)"
    by simp
  from room have r: "int (activeMemberCount circle) = maxMembers circle - 1" by (elim conjE)
  from t2 have s: "fst (joinGroup 1704160000000 bob 20 exampleDb)
      = reply 200 ''Successfully joined group''" by (elim conjE)
  from t1 r s c p show ?thesis by (intro conjI)
qed

section \<open>Properties of challenge progress\<close>

lemma keepsCompleted_refl: "keepsCompleted ps ps"
  by (simp add: keepsCompleted_def)

lemma keepsCompleted_trans:
  "keepsCompleted ps ps' \<Longrightarrow> keepsCompleted ps' ps'' \<Longrightarrow> keepsCompleted ps ps''"
  by (simp add: keepsCompleted_def)

lemma keepsAllCompleted_refl: "keepsAllCompleted g g"
  by (simp add: keepsAllCompleted_def keepsCompleted_refl)

lemma keepsAllCompleted_trans:
  assumes "keepsAllCompleted g g'" "keepsAllCompleted g' g''"
  shows "keepsAllCompleted g g''"
  unfolding keepsAllCompleted_def
proof (intro conjI allI impI)
  show "length (challenges g'') = length (challenges g)"
    using assms by (simp add: keepsAllCompleted_def)
next
  fix i assume i: "i < length (challenges g)"
  with assms(1) have a: "ch_id (challenges g' ! i) = ch_id (challenges g ! i)"
    "keepsCompleted (participants (challenges g ! i)) (participants (challenges g' ! i))"
    "i < length (challenges g')"
    by (simp_all add: keepsAllCompleted_def)
  with assms(2) have b: "ch_id (challenges g'' ! i) = ch_id (challenges g' ! i)"
    "keepsCompleted (participants (challenges g' ! i)) (participants (challenges g'' ! i))"
    by (simp_all add: keepsAllCompleted_def)
  from a b show "ch_id (challenges g'' ! i) = ch_id (challenges g ! i)" by simp
  from a(2) b(2) show "keepsCompleted (participants (challenges g ! i)) (participants (challenges g'' ! i))"
    by (rule keepsCompleted_trans)
qed

lemma setProgress_keeps:
  "part_userId (setProgress now p t x) = part_userId x \<and>
   (part_isCompleted x \<longrightarrow> part_isCompleted (setProgress now p t x))"
  by (simp add: setProgress_def)

lemma updateFirst_setProgress_keeps:
  "keepsCompleted ps (updateFirst P (setProgress now p t) ps)"
  unfolding keepsCompleted_def
proof (intro conjI allI impI)
  show "length (updateFirst P (setProgress now p t) ps) = length ps" by simp
next
  fix i assume "i < length ps"
  from nth_updateFirst [OF this, of P "setProgress now p t"]
  show "part_userId (updateFirst P (setProgress now p t) ps ! i) = part_userId (ps ! i)"
    using setProgress_keeps [of now p t "ps ! i"] by auto
next
  fix i assume "i < length ps" "part_isCompleted (ps ! i)"
  with nth_updateFirst [of i ps P "setProgress now p t"]
  show "part_isCompleted (updateFirst P (setProgress now p t) ps ! i)"
    using setProgress_keeps [of now p t "ps ! i"] by auto
qed

lemma updateChallengeProgress_keeps:
  "keepsAllCompleted g (updateChallengeProgress now cid uid p g)"
proof (cases "find (\<lambda>c. ch_id c = cid) (challenges g)")
  case None
  then show ?thesis by (simp add: updateChallengeProgress_def keepsAllCompleted_refl)
next
  case (Some ch)
  show ?thesis
  proof (cases "find (\<lambda>x. part_userId x = uid) (participants ch)")
    case None
    with Some show ?thesis by (simp add: updateChallengeProgress_def keepsAllCompleted_refl)
  next
    case (Some participant)
    let ?f = "\<lambda>c. c\<lparr>participants := updateFirst (\<lambda>x. part_userId x = uid)
                       (setProgress now p (goalTarget c)) (participants c)\<rparr>"
    let ?cs = "updateFirst (\<lambda>c. ch_id c = cid) ?f (challenges g)"
    have g': "updateChallengeProgress now cid uid p g = g\<lparr>challenges := ?cs\<rparr>"
      using Some \<open>find (\<lambda>c. ch_id c = cid) (challenges g) = Some ch\<close>
      by (simp add: updateChallengeProgress_def)
    have "ch_id (?cs ! i) = ch_id (challenges g ! i) \<and>
          keepsCompleted (participants (challenges g ! i)) (participants (?cs ! i))"
      if "i < length (challenges g)" for i
      using nth_updateFirst [OF that, of "\<lambda>c. ch_id c = cid" ?f]
      by (auto simp: keepsCompleted_refl updateFirst_setProgress_keeps)
    then show ?thesis
      by (simp add: g' keepsAllCompleted_def)
  qed
qed

lemma progressUpdates_keeps: "keepsAllCompleted g (progressUpdates us g)"
proof (induction us arbitrary: g)
  case Nil
  show ?case by (simp add: keepsAllCompleted_refl)
next
  case (Cons x us)
  obtain now cid uid p where x: "x = (now, cid, uid, p)" by (cases x)
  have "keepsAllCompleted g (updateChallengeProgress now cid uid p g)"
    by (rule updateChallengeProgress_keeps)
  from keepsAllCompleted_trans [OF this Cons.IH] x show ?case by simp
qed

text \<open>
  C9. A completed participant stays completed. A participant, at any position of any
  challenge of a group, whose \<open>isCompleted\<close> is true is still at that position, the same
  user, with \<open>isCompleted\<close> true, after one progress update and after any sequence of
  progress updates, whatever challenge, user and progress value each names.
\<close>

theorem C9_completed_stays_completed:
  assumes "ci < length (challenges g)"
    and "pi < length (participants (challenges g ! ci))"
    and "part_isCompleted (participants (challenges g ! ci) ! pi)"
  shows "ci < length (challenges (progressUpdates us g)) \<and>
         pi < length (participants (challenges (progressUpdates us g) ! ci)) \<and>
         ch_id (challenges (progressUpdates us g) ! ci) = ch_id (challenges g ! ci) \<and>
         part_userId (participants (challenges (progressUpdates us g) ! ci) ! pi)
           = part_userId (participants (challenges g ! ci) ! pi) \<and>
         part_isCompleted (participants (challenges (progressUpdates us g) ! ci) ! pi) \<and>
         part_isCompleted
           (participants (challenges (updateChallengeProgress now cid uid p g) ! ci) ! pi)"
proof -
  have k: "part_isCompleted (participants (challenges g' ! ci) ! pi) \<and>
           ci < length (challenges g') \<and> pi < length (participants (challenges g' ! ci)) \<and>
           ch_id (challenges g' ! ci) = ch_id (challenges g ! ci) \<and>
           part_userId (participants (challenges g' ! ci) ! pi)
             = part_userId (participants (challenges g ! ci) ! pi)"
    if "keepsAllCompleted g g'" for g'
    using that assms by (simp add: keepsAllCompleted_def keepsCompleted_def)
  from k [OF progressUpdates_keeps [of g us]] k [OF updateChallengeProgress_keeps [of g now cid uid p]]
  show ?thesis by simp
qed

theorem C9_completed_stays_completed_witness:
  "part_isCompleted (participants (challenges circle ! 0) ! 0) \<and>
   \<not> reachesTarget 3 (goalTarget (challenges circle ! 0)) \<and>
   progress (participants (challenges (updateChallengeProgress 5 30 1 3 circle) ! 0) ! 0) = 3 \<and>
   part_isCompleted (participants (challenges (updateChallengeProgress 5 30 1 3 circle) ! 0) ! 0) \<and>
   part_isCompleted
     (participants (challenges (progressUpdates [(5, 30, 1, 3), (6, 30, 1, 0)] circle) ! 0) ! 0)"
proof -
  have h1: "0 < length (challenges circle)" by (simp add: circle_def)
  have h2: "0 < length (participants (challenges circle ! 0))" by (simp add: circle_def)
  have h3: "part_isCompleted (participants (challenges circle ! 0) ! 0)"
    by (simp add: circle_def)
  note t = C9_completed_stays_completed [OF h1 h2 h3,
      where us = "[(5, 30, 1, 3), (6, 30, 1, 0)]" and now = 5 and cid = 30 and uid = 1 and p = 3]
  from t have a1: "part_isCompleted
     (participants (challenges (progressUpdates [(5, 30, 1, 3), (6, 30, 1, 0)] circle) ! 0) ! 0)"
    by (elim conjE)
  from t have a2:
    "part_isCompleted (participants (challenges (updateChallengeProgress 5 30 1 3 circle) ! 0) ! 0)"
    by (elim conjE)
  note a = a1 a2
  have b: "\<not> reachesTarget 3 (goalTarget (challenges circle ! 0))"
    "progress (participants (challenges (updateChallengeProgress 5 30 1 3 circle) ! 0) ! 0) = 3"
    by (simp_all add: circle_def reachesTarget_def updateChallengeProgress_def setProgress_def)
  from h3 a b show ?thesis by (intro conjI)
qed

text \<open>A progress update on an active group that names a challenge id the group does not
  have, or a challenge of which the requester is not a participant, leaves the group as it
  is and the database unchanged; where the socket server is registered with the application,
  the endpoint answers 200 "Progress updated successfully" and emits the progress event, and
  where it is not, the endpoint answers 500.\<close>

lemma postProgress_without_effect:
  assumes "findGroupById gid d = Some g"
    and "group_isActive g"
    and "cid \<notin> ch_id ` set (challenges g) \<or>
         (\<exists>ch. find (\<lambda>c. ch_id c = cid) (challenges g) = Some ch \<and>
               user_id reqUser \<notin> part_userId ` set (participants ch))"
  shows "updateChallengeProgress now cid (user_id reqUser) p g = g \<and>
         postProgress IoServer now reqUser gid cid (JNumber p) d =
           (reply 200 ''Progress updated successfully'',
            [\<lparr>ev_groupId = gid, ev_challengeId = cid, ev_userId = user_id reqUser,
              ev_progress = p\<rparr>],
            d) \<and>
         postProgress IoUndefined now reqUser gid cid (JNumber p) d =
           (reply 500 ''Error updating challenge progress'', [], d)"
proof -
  from assms(3) have same: "updateChallengeProgress now cid (user_id reqUser) p g = g"
  proof
    assume "cid \<notin> ch_id ` set (challenges g)"
    then have "find (\<lambda>c. ch_id c = cid) (challenges g) = None"
      by (simp add: find_key_None)
    then show ?thesis by (simp add: updateChallengeProgress_def)
  next
    assume "\<exists>ch. find (\<lambda>c. ch_id c = cid) (challenges g) = Some ch \<and>
               user_id reqUser \<notin> part_userId ` set (participants ch)"
    then obtain ch where ch: "find (\<lambda>c. ch_id c = cid) (challenges g) = Some ch"
      "user_id reqUser \<notin> part_userId ` set (participants ch)" by blast
    from ch(2) have "find (\<lambda>x. part_userId x = user_id reqUser) (participants ch) = None"
      by (simp add: find_key_None)
    with ch(1) show ?thesis by (simp add: updateChallengeProgress_def)
  qed
  moreover have "saveGroup g d = d" using assms(1) by (rule saveGroup_same)
  ultimately show ?thesis
    using assms(1,2) by (simp add: postProgress_def)
qed

text \<open>
  C10. A progress update that names a challenge the group does not have, or a user who is not
  a participant of the challenge, leaves the group unchanged, and the endpoint is written to
  answer with the success message. With the application as \<open>server.js\<close> sets it up, the socket
  server is not in the application's settings, and the endpoint answers 500 instead: bob,
  who is not a participant of challenge 30 of group 20, posts progress 4; ana posts progress
  to a challenge 31 that the group does not have.
\<close>

theorem C10_progress_without_participant_answers_500:
  "user_id bob \<notin> part_userId ` set (participants (challenges circle ! 0)) \<and>
   updateChallengeProgress 1704160000000 30 (user_id bob) 4 circle = circle \<and>
   postProgress serverIo 1704160000000 bob 20 30 (JNumber 4) exampleDb =
     (reply 500 ''Error updating challenge progress'', [], exampleDb) \<and>
   31 \<notin> ch_id ` set (challenges circle) \<and>
   updateChallengeProgress 1704160000000 31 (user_id ana) 4 circle = circle \<and>
   postProgress serverIo 1704160000000 ana 20 31 (JNumber 4) exampleDb =
     (reply 500 ''Error updating challenge progress'', [], exampleDb)"
proof -
  have gs: "groups exampleDb = [circle, duo, secret]"
    by (simp add: exampleDb_def)
  have f20: "findGroupById 20 exampleDb = Some circle"
    by (simp add: findGroupById_def gs) (simp add: circle_def)
  have act: "group_isActive circle" by (simp add: circle_def)
  have ids: "user_id ana = 1" "user_id bob = 2" by (simp_all add: ana_def bob_def)
  have n1: "31 \<notin> ch_id ` set (challenges circle)" by (simp add: circle_def)
  have n2: "user_id bob \<notin> part_userId ` set (participants (challenges circle ! 0))"
    by (simp add: circle_def ids)
  have c1: "31 \<notin> ch_id ` set (challenges circle) \<or>
         (\<exists>ch. find (\<lambda>c. ch_id c = 31) (challenges circle) = Some ch \<and>
               user_id ana \<notin> part_userId ` set (participants ch))"
    using n1 by (rule disjI1)
  have "find (\<lambda>c. ch_id c = 30) (challenges circle) = Some (challenges circle ! 0) \<and>
        user_id bob \<notin> part_userId ` set (participants (challenges circle ! 0))"
    using n2 by (simp add: circle_def)
  then have c2: "30 \<notin> ch_id ` set (challenges circle) \<or>
         (\<exists>ch. find (\<lambda>c. ch_id c = 30) (challenges circle) = Some ch \<and>
               user_id bob \<notin> part_userId ` set (participants ch))"
    by (intro disjI2 exI [of _ "challenges circle ! 0"])
  note t1 = postProgress_without_effect [OF f20 act c1, where now = 1704160000000 and p = 4]
  note t2 = postProgress_without_effect [OF f20 act c2, where now = 1704160000000 and p = 4]
  from t1 have a: "updateChallengeProgress 1704160000000 31 (user_id ana) 4 circle = circle"
    "postProgress serverIo 1704160000000 ana 20 31 (JNumber 4) exampleDb =
     (reply 500 ''Error updating challenge progress'', [], exampleDb)"
    by (simp_all only: serverIo_def)
  from t2 have b: "updateChallengeProgress 1704160000000 30 (user_id bob) 4 circle = circle"
    "postProgress serverIo 1704160000000 bob 20 30 (JNumber 4) exampleDb =
     (reply 500 ''Error updating challenge progress'', [], exampleDb)"
    by (simp_all only: serverIo_def)
  from n2 b n1 a show ?thesis by (intro conjI)
qed

end
